theory Spec2Isabelle
  imports Main "HOL-Library.AList" "HOL-Library.Char_ord" "HOL-Library.List_Lexorder"
    "HOL-Library.Option_ord"
begin

section \<open>Python values, exceptions and the libraries the module calls\<close>

text \<open>
  The module \<^verbatim>\<open>readinglist/resource.py\<close> works on JSON-like Python values: request
  bodies parsed by \<^verbatim>\<open>json.loads\<close>, records (dicts from field name to value) and the
  native values that \<^verbatim>\<open>ast.literal_eval\<close> produces for query-string filters.
  A dict is an association list in iteration order with distinct keys. Floats are not
  represented. Text is a list of characters with code points below 256; the raw request
  body is a list of bytes.
\<close>

datatype pyval =
    PNone
  | PBool bool
  | PInt int
  | PStr string
  | PList "pyval list"
  | PDict "(string \<times> pyval) list"

type_synonym pydict = "(string \<times> pyval) list"

text \<open>
  The exceptions the module raises, catches or lets through. \<open>Invalid\<close> carries what
  \<^verbatim>\<open>colander.Invalid.asdict()\<close> answers: the offending field names with their messages.
  \<open>OtherError\<close> stands for every exception class the module has no handler for.
\<close>

datatype exn =
    ValueError string
  | SyntaxError string
  | Invalid "(string \<times> string) list"
  | RecordNotFoundError string
  | OtherError string

text \<open>
  The library functions whose code is outside the repository are parameters of the model:
  \<^item> \<open>literal_parse\<close>: \<^verbatim>\<open>ast.literal_eval\<close> applied to a string;
  \<^item> \<open>utf8_decode\<close>: \<^verbatim>\<open>raw.decode('utf-8')\<close> (a \<^verbatim>\<open>UnicodeDecodeError\<close> is a
    \<^verbatim>\<open>ValueError\<close>);
  \<^item> \<open>json_loads\<close>: \<^verbatim>\<open>json.loads\<close>;
  \<^item> \<open>int_of_text\<close>: \<^verbatim>\<open>int(s)\<close> for a string \<open>s\<close>, \<open>None\<close> when it raises;
  \<^item> \<open>text_type\<close>: \<^verbatim>\<open>six.text_type(v)\<close>;
  \<^item> \<open>not_a_string_msg\<close>: the message of the \<^verbatim>\<open>Invalid\<close> that colander's string type
    raises on a node (given by its name) for a value that is no string.
\<close>

record pylib =
  literal_parse :: "string \<Rightarrow> exn + pyval"
  utf8_decode :: "string \<Rightarrow> exn + string"
  json_loads :: "string \<Rightarrow> exn + pyval"
  int_of_text :: "string \<Rightarrow> int option"
  text_type :: "pyval \<Rightarrow> string"
  not_a_string_msg :: "string \<Rightarrow> pyval \<Rightarrow> string"

text \<open>
  \<^verbatim>\<open>ast.literal_eval(node_or_string)\<close>: a string is parsed; a value that is neither a
  string nor a syntax node (the module passes \<^verbatim>\<open>True\<close> and \<^verbatim>\<open>False\<close>) is a malformed
  node, a \<^verbatim>\<open>ValueError\<close>.
\<close>

definition ast_literal_eval :: "pylib \<Rightarrow> pyval \<Rightarrow> exn + pyval" where
  "ast_literal_eval lib node_or_string =
     (case node_or_string of
        PStr s \<Rightarrow> literal_parse lib s
      | _ \<Rightarrow> Inl (ValueError ''malformed node or string''))"

text \<open>
  \<^verbatim>\<open>str.lower()\<close> on characters below 256: the capitals \<open>A\<close> to \<open>Z\<close> and the accented
  capitals 0xC0 to 0xDE (0xD7, the multiplication sign, apart) move up by 32.
\<close>

definition lower_char :: "char \<Rightarrow> char" where
  "lower_char c =
     (let n = (of_char c :: nat)
      in if (0x41 \<le> n \<and> n \<le> 0x5A) \<or> (0xC0 \<le> n \<and> n \<le> 0xD6) \<or> (0xD8 \<le> n \<and> n \<le> 0xDE)
         then char_of (n + 32) else c)"

definition lower :: "string \<Rightarrow> string" where
  "lower s = map lower_char s"

section \<open>The schema\<close>

text \<open>
  A colander schema node as the module declares it: its name, its type
  (\<^verbatim>\<open>colander.String()\<close> or \<^verbatim>\<open>colander.Integer\<close>), its \<^verbatim>\<open>missing\<close> policy
  (\<^verbatim>\<open>colander.required\<close> by default, \<^verbatim>\<open>colander.drop\<close>, or a value) and whether its
  class is \<open>TimeStamp\<close>, which overrides \<open>deserialize\<close>.
\<close>

datatype ctype = String | Integer

datatype missing = Required | Drop | Default pyval

record node =
  name :: string
  schema_type :: ctype
  missing :: missing
  timestamp :: bool

text \<open>\<^verbatim>\<open>class RessourceSchema(colander.MappingSchema)\<close>: the children in declaration order.\<close>

definition RessourceSchema :: "node list" where
  "RessourceSchema =
     [\<lparr>name = ''_id'', schema_type = String, missing = Drop, timestamp = False\<rparr>,
      \<lparr>name = ''last_modified'', schema_type = Integer, missing = Required, timestamp = True\<rparr>]"

definition id_field :: string where
  "id_field = ''_id''"

definition modified_field :: string where
  "modified_field = ''last_modified''"

text \<open>\<^verbatim>\<open>self.known_fields = [c.name for c in self.mapping.children]\<close>\<close>

definition known_fields :: "node list \<Rightarrow> string list" where
  "known_fields mapping = map name mapping"

section \<open>Query translation\<close>

text \<open>
  \<^verbatim>\<open>__decode_filter_value\<close>: a boolean token rebinds \<open>value\<close> to a bool; then
  \<^verbatim>\<open>ast.literal_eval(value)\<close> is returned, and only a \<^verbatim>\<open>ValueError\<close> is caught, in which
  case the (possibly rebound) \<open>value\<close> is returned. Any other exception leaves the function.
\<close>

definition decode_filter_value :: "pylib \<Rightarrow> string \<Rightarrow> exn + pyval" where
  "decode_filter_value lib value =
     (let value' =
            (if lower value \<in> set [''on'', ''true'', ''yes'', ''1''] then PBool True
             else if lower value \<in> set [''off'', ''false'', ''no'', ''0''] then PBool False
             else PStr value)
      in case ast_literal_eval lib value' of
           Inr v \<Rightarrow> Inr v
         | Inl (ValueError m) \<Rightarrow> Inr value'
         | Inl e \<Rightarrow> Inl e)"

type_synonym filter = "string \<times> pyval \<times> string"

text \<open>
  Python's \<^verbatim>\<open>==\<close> on these values. A bool is an int (\<^verbatim>\<open>True == 1\<close>, \<^verbatim>\<open>False == 0\<close>);
  lists are equal element by element; dicts are equal key by key, whatever the order of
  the keys; values of different kinds are unequal. \<open>py_norm\<close> is the canonical form: bools
  become ints, the keys of a dict are sorted. Tuples, and lists of tuples, are equal
  component by component, which is what \<open>filters_eq\<close> says of two lists of filters.
\<close>

primrec py_norm :: "pyval \<Rightarrow> pyval" where
  "py_norm PNone = PNone"
| "py_norm (PBool b) = PInt (if b then 1 else 0)"
| "py_norm (PInt n) = PInt n"
| "py_norm (PStr s) = PStr s"
| "py_norm (PList xs) = PList (map py_norm xs)"
| "py_norm (PDict d) = PDict (sort_key fst (map (map_prod id py_norm) d))"

definition py_eq :: "pyval \<Rightarrow> pyval \<Rightarrow> bool" where
  "py_eq a b = (py_norm a = py_norm b)"

definition filters_eq :: "filter list \<Rightarrow> filter list \<Rightarrow> bool" where
  "filters_eq fs gs =
     list_all2 (\<lambda>(field, v, operator) (field', v', operator').
                  field = field' \<and> py_eq v v' \<and> operator = operator') fs gs"

text \<open>
  \<^verbatim>\<open>_extract_filters\<close>: the loop over \<^verbatim>\<open>queryparams.items()\<close>, the list \<open>filters\<close> as
  accumulator. The query parameters are the (name, value) pairs in iteration order.
\<close>

fun extract_filters_loop ::
  "pylib \<Rightarrow> string list \<Rightarrow> (string \<times> string) list \<Rightarrow> filter list \<Rightarrow> exn + filter list" where
  "extract_filters_loop lib known [] filters = Inr filters"
| "extract_filters_loop lib known ((param, value) # rest) filters =
     (case decode_filter_value lib value of
        Inl e \<Rightarrow> Inl e
      | Inr v \<Rightarrow>
          (let filters1 = (if param \<in> set known then filters @ [(param, v, ''=='')] else filters);
               filters2 = (if param = ''since'' then filters1 @ [(modified_field, v, ''>='')]
                           else filters1)
           in extract_filters_loop lib known rest filters2))"

definition extract_filters ::
  "pylib \<Rightarrow> node list \<Rightarrow> (string \<times> string) list \<Rightarrow> exn + filter list" where
  "extract_filters lib mapping queryparams =
     extract_filters_loop lib (known_fields mapping) queryparams []"

text \<open>
  \<^verbatim>\<open>queryparams.get(key, default)\<close>. For a dict the keys are distinct; webob's MultiDict
  answers the last value of a repeated key.
\<close>

definition get_param :: "(string \<times> string) list \<Rightarrow> string \<Rightarrow> string \<Rightarrow> string" where
  "get_param queryparams key dflt =
     (case map_of (rev queryparams) key of Some v \<Rightarrow> v | None \<Rightarrow> dflt)"

text \<open>\<^verbatim>\<open>s.split(',')\<close>: the empty string splits into one empty token.\<close>

fun split_comma :: "string \<Rightarrow> string list" where
  "split_comma [] = [[]]"
| "split_comma (c # cs) =
     (if c = CHR '','' then [] # split_comma cs
      else (case split_comma cs of
              w # ws \<Rightarrow> (c # w) # ws
            | [] \<Rightarrow> [[c]]))"

text \<open>
  The character classes \<^verbatim>\<open>\s\<close> and \<^verbatim>\<open>\w\<close> of Python 3 (a \<^verbatim>\<open>str\<close> pattern, Unicode
  classes) on characters below 256. Whitespace: the controls 0x09 to 0x0D, the separators
  0x1C to 0x1F, the blank, 0x85 and the no-break space 0xA0. Word characters: the digits,
  the letters, the underscore, and beyond ASCII the alphanumerics 0xAA, 0xB2, 0xB3, 0xB5,
  0xB9, 0xBA, 0xBC to 0xBE, 0xC0 to 0xD6, 0xD8 to 0xF6 and 0xF8 to 0xFF.
\<close>

definition is_space :: "char \<Rightarrow> bool" where
  "is_space c =
     (let n = (of_char c :: nat)
      in (0x09 \<le> n \<and> n \<le> 0x0D) \<or> (0x1C \<le> n \<and> n \<le> 0x20) \<or> n = 0x85 \<or> n = 0xA0)"

definition is_word :: "char \<Rightarrow> bool" where
  "is_word c =
     (let n = (of_char c :: nat)
      in (0x30 \<le> n \<and> n \<le> 0x39) \<or> (0x41 \<le> n \<and> n \<le> 0x5A) \<or> n = 0x5F
         \<or> (0x61 \<le> n \<and> n \<le> 0x7A) \<or> n = 0xAA \<or> (0xB2 \<le> n \<and> n \<le> 0xB3) \<or> n = 0xB5
         \<or> (0xB9 \<le> n \<and> n \<le> 0xBA) \<or> (0xBC \<le> n \<and> n \<le> 0xBE)
         \<or> (0xC0 \<le> n \<and> n \<le> 0xD6) \<or> (0xD8 \<le> n \<and> n \<le> 0xF6) \<or> (0xF8 \<le> n \<and> n \<le> 0xFF))"

text \<open>
  \<^verbatim>\<open>re.match(r'\s?([\-+]?)(\w+)\s?', field)\<close> followed by \<^verbatim>\<open>m.groups()\<close>. \<^verbatim>\<open>re.match\<close>
  anchors the pattern at the start of the string only. The three classes are disjoint, so
  the greedy choice at each optional item is the only one that can lead to a match: at most
  one whitespace character is consumed, then at most one sign, then the longest run of word
  characters, which must not be empty. The trailing \<^verbatim>\<open>\s?\<close> is not captured and never
  fails. The result is the pair of groups (order, field), or \<open>None\<close> when there is no match.
\<close>

definition re_match_sort :: "string \<Rightarrow> (string \<times> string) option" where
  "re_match_sort field =
     (let s1 = (case field of c # cs \<Rightarrow> if is_space c then cs else field | [] \<Rightarrow> []);
          (order, s2) = (case s1 of
                           c # cs \<Rightarrow> if c = CHR ''-'' \<or> c = CHR ''+'' then ([c], cs) else ([], s1)
                         | [] \<Rightarrow> ([], []));
          w = takeWhile is_word s2
      in if w = [] then None else Some (order, w))"

text \<open>\<^verbatim>\<open>_extract_sorting\<close>: the loop over the tokens, the list \<open>sorting\<close> as accumulator.\<close>

fun extract_sorting_loop :: "string list \<Rightarrow> (string \<times> int) list \<Rightarrow> (string \<times> int) list" where
  "extract_sorting_loop [] sorting = sorting"
| "extract_sorting_loop (field # rest) sorting =
     (case re_match_sort field of
        None \<Rightarrow> extract_sorting_loop rest sorting
      | Some (order, field') \<Rightarrow>
          (let direction = (if order = ''-'' then - 1 else 1)
           in extract_sorting_loop rest (sorting @ [(field', direction)])))"

definition extract_sorting :: "(string \<times> string) list \<Rightarrow> (string \<times> int) list" where
  "extract_sorting queryparams =
     extract_sorting_loop (split_comma (get_param queryparams ''sort'' '''')) []"

text \<open>
  The token shape as the specification words it: optional leading whitespace, an optional
  sign, one or more word characters, optional trailing whitespace, and nothing else.
\<close>

definition spec_token_shape :: "string \<Rightarrow> bool" where
  "spec_token_shape token =
     (let s1 = dropWhile is_space token;
          s2 = (case s1 of c # cs \<Rightarrow> if c = CHR ''-'' \<or> c = CHR ''+'' then cs else s1 | [] \<Rightarrow> [])
      in takeWhile is_word s2 \<noteq> [] \<and> list_all is_space (dropWhile is_word s2))"

text \<open>
  What \<^verbatim>\<open>re.match\<close> asks of a token: some prefix of it is at most one whitespace
  character, an optional sign and one or more word characters.
\<close>

definition prefix_matches :: "string \<Rightarrow> bool" where
  "prefix_matches token =
     (\<exists>ws sg w rest. token = ws @ sg @ w @ rest \<and> length ws \<le> 1 \<and> list_all is_space ws
        \<and> (sg = [] \<or> sg = ''-'' \<or> sg = ''+'') \<and> w \<noteq> [] \<and> list_all is_word w)"

section \<open>Schema validation (colander)\<close>

text \<open>
  What a node receives is \<^verbatim>\<open>colander.null\<close> or a value; what it answers is
  \<^verbatim>\<open>colander.drop\<close> or a value. Python's truth value of a JSON-like value, and the test
  \<^verbatim>\<open>cstruct != 0\<close> (\<^verbatim>\<open>False == 0\<close> in Python).
\<close>

datatype cstruct = CNull | CVal pyval

datatype appstruct = ADrop | AVal pyval

fun truthy :: "pyval \<Rightarrow> bool" where
  "truthy PNone = False"
| "truthy (PBool b) = b"
| "truthy (PInt n) = (n \<noteq> 0)"
| "truthy (PStr s) = (s \<noteq> [])"
| "truthy (PList xs) = (xs \<noteq> [])"
| "truthy (PDict d) = (d \<noteq> [])"

definition eq_zero :: "pyval \<Rightarrow> bool" where
  "eq_zero v = (v = PInt 0 \<or> v = PBool False)"

text \<open>\<^verbatim>\<open>int(v)\<close>: \<open>None\<close> when it raises.\<close>

definition py_int :: "pylib \<Rightarrow> pyval \<Rightarrow> int option" where
  "py_int lib v =
     (case v of
        PInt n \<Rightarrow> Some n
      | PBool b \<Rightarrow> Some (if b then 1 else 0)
      | PStr s \<Rightarrow> int_of_text lib s
      | _ \<Rightarrow> None)"

text \<open>
  \<^verbatim>\<open>colander.Integer.deserialize\<close>: a false value other than zero is
  \<^verbatim>\<open>null\<close>; otherwise \<^verbatim>\<open>int(cstruct)\<close>, and any exception becomes \<^verbatim>\<open>Invalid\<close> with a
  message. \<open>Inl\<close> carries the message of the \<^verbatim>\<open>Invalid\<close> raised for the node.
\<close>

definition Integer_deserialize :: "pylib \<Rightarrow> node \<Rightarrow> cstruct \<Rightarrow> string + cstruct" where
  "Integer_deserialize lib nd c =
     (case c of
        CNull \<Rightarrow> Inr CNull
      | CVal v \<Rightarrow>
          if \<not> eq_zero v \<and> \<not> truthy v then Inr CNull
          else (case py_int lib v of
                  Some n \<Rightarrow> Inr (CVal (PInt n))
                | None \<Rightarrow> Inl ([CHR 0x22] @ text_type lib v @ [CHR 0x22] @ '' is not a number'')))"

text \<open>
  \<^verbatim>\<open>colander.String.deserialize\<close> (no encoding): a false value is \<^verbatim>\<open>null\<close>; a string
  is itself; any other value is no string and raises \<^verbatim>\<open>Invalid\<close> for the node.
\<close>

definition String_deserialize :: "pylib \<Rightarrow> node \<Rightarrow> cstruct \<Rightarrow> string + cstruct" where
  "String_deserialize lib nd c =
     (case c of
        CNull \<Rightarrow> Inr CNull
      | CVal v \<Rightarrow>
          if \<not> truthy v then Inr CNull
          else (case v of
                  PStr s \<Rightarrow> Inr (CVal (PStr s))
                | _ \<Rightarrow> Inl (not_a_string_msg lib (name nd) v)))"

text \<open>\<^verbatim>\<open>self.typ.deserialize(self, cstruct)\<close>: the type of the node, applied to the node.\<close>

definition typ_deserialize :: "pylib \<Rightarrow> node \<Rightarrow> cstruct \<Rightarrow> string + cstruct" where
  "typ_deserialize lib nd c =
     (case schema_type nd of
        String \<Rightarrow> String_deserialize lib nd c
      | Integer \<Rightarrow> Integer_deserialize lib nd c)"

text \<open>
  \<^verbatim>\<open>colander.SchemaNode.deserialize\<close> for a node without preparer and validator: the
  type's result, and for \<^verbatim>\<open>null\<close> the \<^verbatim>\<open>missing\<close> policy (\<^verbatim>\<open>Invalid(node, 'Required')\<close>
  when the node is required).
\<close>

definition SchemaNode_deserialize :: "pylib \<Rightarrow> node \<Rightarrow> cstruct \<Rightarrow> string + appstruct" where
  "SchemaNode_deserialize lib nd c =
     (case typ_deserialize lib nd c of
        Inl msg \<Rightarrow> Inl msg
      | Inr CNull \<Rightarrow>
          (case missing nd of
             Required \<Rightarrow> Inl ''Required''
           | Drop \<Rightarrow> Inr ADrop
           | Default v \<Rightarrow> Inr (AVal v))
      | Inr (CVal v) \<Rightarrow> Inr (AVal v))"

text \<open>
  \<^verbatim>\<open>TimeStamp.deserialize\<close>. \<open>now\<close> is what \<^verbatim>\<open>TimeStamp.now()\<close>, that is
  \<^verbatim>\<open>int(time.time())\<close>, answers during the call; \<^verbatim>\<open>self.required\<close> is
  \<^verbatim>\<open>self.missing is colander.required\<close>.
\<close>

definition TimeStamp_deserialize :: "pylib \<Rightarrow> int \<Rightarrow> node \<Rightarrow> cstruct \<Rightarrow> string + appstruct" where
  "TimeStamp_deserialize lib now nd c =
     (let c' = (if c = CNull \<and> missing nd = Required then CVal (PInt now) else c)
      in SchemaNode_deserialize lib nd c')"

definition node_deserialize :: "pylib \<Rightarrow> int \<Rightarrow> node \<Rightarrow> cstruct \<Rightarrow> string + appstruct" where
  "node_deserialize lib now nd c =
     (if timestamp nd then TimeStamp_deserialize lib now nd c
      else SchemaNode_deserialize lib nd c)"

text \<open>
  \<^verbatim>\<open>colander.Mapping._impl\<close> with the default \<^verbatim>\<open>unknown='ignore'\<close>: each child pops its
  value from the input (\<^verbatim>\<open>null\<close> when absent) and deserializes it; failures are
  collected, dropped results are left out, and keys no child asked for are ignored. The
  accumulators are the result dict and the collected errors, keyed by child name as
  \<^verbatim>\<open>asdict()\<close> keys them.
\<close>

fun Mapping_impl ::
  "pylib \<Rightarrow> int \<Rightarrow> node list \<Rightarrow> pydict \<Rightarrow> pydict \<Rightarrow> (string \<times> string) list
     \<Rightarrow> pydict \<times> (string \<times> string) list" where
  "Mapping_impl lib now [] value result error = (result, error)"
| "Mapping_impl lib now (subnode # rest) value result error =
     (let subval = (case map_of value (name subnode) of Some v \<Rightarrow> CVal v | None \<Rightarrow> CNull);
          value' = AList.delete (name subnode) value
      in case node_deserialize lib now subnode subval of
           Inl msg \<Rightarrow>
             Mapping_impl lib now rest value' result (AList.update (name subnode) msg error)
         | Inr ADrop \<Rightarrow> Mapping_impl lib now rest value' result error
         | Inr (AVal v) \<Rightarrow>
             Mapping_impl lib now rest value' (AList.update (name subnode) v result) error)"

text \<open>
  \<^verbatim>\<open>self.mapping.deserialize(record)\<close>: a value without \<^verbatim>\<open>items\<close> is not a mapping
  (\<^verbatim>\<open>Invalid\<close> on the root node, whose name is empty); otherwise the children's result,
  or \<^verbatim>\<open>Invalid\<close> with the collected errors when there are any.
\<close>

definition Mapping_deserialize :: "pylib \<Rightarrow> int \<Rightarrow> node list \<Rightarrow> pyval \<Rightarrow> exn + pydict" where
  "Mapping_deserialize lib now children cstruct =
     (case cstruct of
        PDict value \<Rightarrow>
          (case Mapping_impl lib now children value [] [] of
             (result, []) \<Rightarrow> Inr result
           | (result, e # es) \<Rightarrow> Inl (Invalid (e # es)))
      | v \<Rightarrow>
          Inl (Invalid [('''', [CHR 0x22] @ text_type lib v @ [CHR 0x22]
                               @ '' is not a mapping type: Does not implement dict-like functionality.'')]))"

text \<open>\<^verbatim>\<open>BaseResource.validate\<close>\<close>

definition validate :: "pylib \<Rightarrow> node list \<Rightarrow> int \<Rightarrow> pyval \<Rightarrow> exn + pydict" where
  "validate lib mapping now record = Mapping_deserialize lib now mapping record"

text \<open>\<^verbatim>\<open>BaseResource.deserialize\<close>: an empty body is the empty mapping.\<close>

definition deserialize :: "pylib \<Rightarrow> string \<Rightarrow> exn + pyval" where
  "deserialize lib raw =
     (case utf8_decode lib raw of
        Inl e \<Rightarrow> Inl e
      | Inr raw' \<Rightarrow> if raw' \<noteq> [] then json_loads lib raw' else Inr (PDict []))"

section \<open>The resource controller\<close>

text \<open>
  The storage backend is injected (\<^verbatim>\<open>self.db = request.db\<close>): a parameter of the model.
  Each function takes the backend's state and answers the record or the exception raised,
  with the new state. The keyword arguments \<^verbatim>\<open>db_kwargs\<close> (resource and user id) are the
  same in every call and are part of the backend value.
\<close>

type_synonym sorting = "(string \<times> int) list"

record 'db backend =
  db_get_all :: "filter list \<Rightarrow> sorting \<Rightarrow> 'db \<Rightarrow> (exn + pydict list) \<times> 'db"
  db_get :: "string \<Rightarrow> 'db \<Rightarrow> (exn + pydict) \<times> 'db"
  db_create :: "pydict \<Rightarrow> 'db \<Rightarrow> (exn + pydict) \<times> 'db"
  db_update :: "string \<Rightarrow> pydict \<Rightarrow> 'db \<Rightarrow> (exn + pydict) \<times> 'db"
  db_delete :: "string \<Rightarrow> 'db \<Rightarrow> (exn + pydict) \<times> 'db"

text \<open>
  What a view reads and writes: the request (query parameters, raw body, matched route
  parameters, the error list \<^verbatim>\<open>request.errors\<close> with its status), the backend's state and
  \<^verbatim>\<open>self.record\<close>. An entry of the error list is (location, name, description).
\<close>

record 'db resource =
  GET :: "(string \<times> string) list"
  body :: string
  matchdict :: "(string \<times> string) list"
  errors :: "(string \<times> string \<times> string) list"
  errors_status :: string
  db_state :: 'db
  self_record :: "pydict option"

text \<open>
  A view answers the returned value (\<open>None\<close> for Python's \<^verbatim>\<open>None\<close>) or the exception
  that leaves it, together with the state at that point.
\<close>

type_synonym 'db view = "'db resource \<Rightarrow> (exn + pyval option) \<times> 'db resource"

text \<open>\<^verbatim>\<open>exists_or_404\<close>; \<^verbatim>\<open>six.text_type(e)\<close> is the exception's message.\<close>

definition exists_or_404 :: "'db view \<Rightarrow> 'db view" where
  "exists_or_404 view self =
     (case view self of
        (Inl (RecordNotFoundError e), self') \<Rightarrow>
          (Inr None, self'\<lparr>errors := errors self' @ [(''path'', ''id'', e)],
                           errors_status := ''404 Resource Not Found''\<rparr>)
      | r \<Rightarrow> r)"

text \<open>\<^verbatim>\<open>validates_or_400\<close>\<close>

definition validates_or_400 :: "'db view \<Rightarrow> 'db view" where
  "validates_or_400 view self =
     (case view self of
        (Inl (ValueError e), self') \<Rightarrow>
          (Inr None, self'\<lparr>errors := errors self' @ [(''body'', ''body'', e)],
                           errors_status := ''400 Bad Request''\<rparr>)
      | (Inl (Invalid e), self') \<Rightarrow>
          (Inr None, self'\<lparr>errors := errors self' @ map (\<lambda>(field, error). (''body'', field, error)) e,
                           errors_status := ''400 Bad Request''\<rparr>)
      | r \<Rightarrow> r)"

text \<open>\<^verbatim>\<open>self.request.matchdict['id']\<close>: a missing key is a \<^verbatim>\<open>KeyError\<close>.\<close>

definition matchdict_id :: "'db resource \<Rightarrow> exn + string" where
  "matchdict_id self =
     (case map_of (matchdict self) ''id'' of
        Some record_id \<Rightarrow> Inr record_id
      | None \<Rightarrow> Inl (OtherError ''KeyError''))"

text \<open>\<^verbatim>\<open>collection_get\<close>\<close>

definition collection_get :: "pylib \<Rightarrow> node list \<Rightarrow> 'db backend \<Rightarrow> 'db view" where
  "collection_get lib mapping be self =
     (case extract_filters lib mapping (GET self) of
        Inl e \<Rightarrow> (Inl e, self)
      | Inr filters \<Rightarrow>
          (let sorting = extract_sorting (GET self)
           in case db_get_all be filters sorting (db_state self) of
                (Inl e, d) \<Rightarrow> (Inl e, self\<lparr>db_state := d\<rparr>)
              | (Inr records, d) \<Rightarrow>
                  (Inr (Some (PDict [(''items'', PList (map PDict records)),
                                     (''meta'', PDict [(''total'', PInt (int (length records)))])])),
                   self\<lparr>db_state := d\<rparr>)))"

text \<open>\<^verbatim>\<open>collection_post\<close>: the body of the view, then the view under its decorator.\<close>

definition collection_post_view :: "pylib \<Rightarrow> node list \<Rightarrow> 'db backend \<Rightarrow> int \<Rightarrow> 'db view" where
  "collection_post_view lib mapping be now self =
     (case deserialize lib (body self) of
        Inl e \<Rightarrow> (Inl e, self)
      | Inr new_record \<Rightarrow>
          (case validate lib mapping now new_record of
             Inl e \<Rightarrow> (Inl e, self)
           | Inr new_record' \<Rightarrow>
               (case db_create be new_record' (db_state self) of
                  (Inl e, d) \<Rightarrow> (Inl e, self\<lparr>db_state := d\<rparr>)
                | (Inr r, d) \<Rightarrow> (Inr (Some (PDict r)), self\<lparr>db_state := d, self_record := Some r\<rparr>))))"

definition collection_post :: "pylib \<Rightarrow> node list \<Rightarrow> 'db backend \<Rightarrow> int \<Rightarrow> 'db view" where
  "collection_post lib mapping be now = validates_or_400 (collection_post_view lib mapping be now)"

text \<open>\<^verbatim>\<open>get\<close>\<close>

definition get_view :: "'db backend \<Rightarrow> 'db view" where
  "get_view be self =
     (case matchdict_id self of
        Inl e \<Rightarrow> (Inl e, self)
      | Inr record_id \<Rightarrow>
          (case db_get be record_id (db_state self) of
             (Inl e, d) \<Rightarrow> (Inl e, self\<lparr>db_state := d\<rparr>)
           | (Inr r, d) \<Rightarrow> (Inr (Some (PDict r)), self\<lparr>db_state := d, self_record := Some r\<rparr>)))"

definition get :: "'db backend \<Rightarrow> 'db view" where
  "get be = exists_or_404 (get_view be)"

text \<open>\<^verbatim>\<open>put\<close>\<close>

definition put_view :: "pylib \<Rightarrow> node list \<Rightarrow> 'db backend \<Rightarrow> int \<Rightarrow> 'db view" where
  "put_view lib mapping be now self =
     (case matchdict_id self of
        Inl e \<Rightarrow> (Inl e, self)
      | Inr record_id \<Rightarrow>
          (case deserialize lib (body self) of
             Inl e \<Rightarrow> (Inl e, self)
           | Inr new_record \<Rightarrow>
               (case validate lib mapping now new_record of
                  Inl e \<Rightarrow> (Inl e, self)
                | Inr new_record' \<Rightarrow>
                    (case db_update be record_id new_record' (db_state self) of
                       (Inl e, d) \<Rightarrow> (Inl e, self\<lparr>db_state := d\<rparr>)
                     | (Inr r, d) \<Rightarrow>
                         (Inr (Some (PDict r)), self\<lparr>db_state := d, self_record := Some r\<rparr>)))))"

definition put :: "pylib \<Rightarrow> node list \<Rightarrow> 'db backend \<Rightarrow> int \<Rightarrow> 'db view" where
  "put lib mapping be now = exists_or_404 (validates_or_400 (put_view lib mapping be now))"

text \<open>
  \<^verbatim>\<open>updated.update(**modified)\<close>: the keys of \<open>modified\<close> in order, each replacing its
  value in place or appended.
\<close>

definition dict_update :: "pydict \<Rightarrow> pydict \<Rightarrow> pydict" where
  "dict_update d modified = foldl (\<lambda>acc (k, v). AList.update k v acc) d modified"

text \<open>
  \<^verbatim>\<open>patch\<close>. A body that is valid JSON but no object cannot be unpacked with \<^verbatim>\<open>**\<close>:
  a \<^verbatim>\<open>TypeError\<close>, which no decorator catches.
\<close>

definition patch_view :: "pylib \<Rightarrow> node list \<Rightarrow> 'db backend \<Rightarrow> int \<Rightarrow> 'db view" where
  "patch_view lib mapping be now self =
     (case matchdict_id self of
        Inl e \<Rightarrow> (Inl e, self)
      | Inr record_id \<Rightarrow>
          (case db_get be record_id (db_state self) of
             (Inl e, d) \<Rightarrow> (Inl e, self\<lparr>db_state := d\<rparr>)
           | (Inr r, d) \<Rightarrow>
               (let self1 = self\<lparr>db_state := d, self_record := Some r\<rparr>
                in case deserialize lib (body self1) of
                     Inl e \<Rightarrow> (Inl e, self1)
                   | Inr (PDict modified) \<Rightarrow>
                       (let updated = dict_update r modified;
                            updated' = AList.update modified_field (PInt now) updated
                        in case validate lib mapping now (PDict updated') of
                             Inl e \<Rightarrow> (Inl e, self1)
                           | Inr updated'' \<Rightarrow>
                               (case db_update be record_id updated'' (db_state self1) of
                                  (Inl e, d') \<Rightarrow> (Inl e, self1\<lparr>db_state := d'\<rparr>)
                                | (Inr record, d') \<Rightarrow>
                                    (Inr (Some (PDict record)), self1\<lparr>db_state := d'\<rparr>)))
                   | Inr _ \<Rightarrow> (Inl (OtherError ''TypeError''), self1))))"

definition patch :: "pylib \<Rightarrow> node list \<Rightarrow> 'db backend \<Rightarrow> int \<Rightarrow> 'db view" where
  "patch lib mapping be now = exists_or_404 (validates_or_400 (patch_view lib mapping be now))"

text \<open>\<^verbatim>\<open>delete\<close>\<close>

definition delete_view :: "'db backend \<Rightarrow> 'db view" where
  "delete_view be self =
     (case matchdict_id self of
        Inl e \<Rightarrow> (Inl e, self)
      | Inr record_id \<Rightarrow>
          (case db_delete be record_id (db_state self) of
             (Inl e, d) \<Rightarrow> (Inl e, self\<lparr>db_state := d\<rparr>)
           | (Inr r, d) \<Rightarrow> (Inr (Some (PDict r)), self\<lparr>db_state := d, self_record := Some r\<rparr>)))"

definition delete :: "'db backend \<Rightarrow> 'db view" where
  "delete be = exists_or_404 (delete_view be)"

section \<open>A storage backend\<close>

text \<open>
  Modelled from the spec: the storage backend (package \<^verbatim>\<open>readinglist.backend\<close>, whose
  code is not among the sources). The specification's interface: \<open>get\<close> fails with
  record-not-found when the id is absent; \<open>create\<close> assigns an id if the record has none;
  \<open>update\<close> is a full replace, upsert by id; \<open>delete\<close> returns the last known state and
  fails with record-not-found when the id is absent. The store maps ids to records; the id
  generator is a parameter. Filtering and ordering in \<open>get_all\<close> are left to the backend by
  the specification; this one lists every record.
\<close>

type_synonym store = "(string \<times> pydict) list"

text \<open>Modelled from the spec: \<open>get\<close> of the storage backend, which fails with record-not-found when the id is absent.\<close>

definition mem_get :: "string \<Rightarrow> store \<Rightarrow> (exn + pydict) \<times> store" where
  "mem_get record_id d =
     (case map_of d record_id of
        None \<Rightarrow> (Inl (RecordNotFoundError record_id), d)
      | Some r \<Rightarrow> (Inr r, d))"

text \<open>Modelled from the spec: \<open>create\<close> of the storage backend, which assigns an id if the record has none.\<close>

definition mem_create :: "(store \<Rightarrow> string) \<Rightarrow> pydict \<Rightarrow> store \<Rightarrow> (exn + pydict) \<times> store" where
  "mem_create id_generator r d =
     (case map_of r id_field of
        Some (PStr record_id) \<Rightarrow> (Inr r, AList.update record_id r d)
      | _ \<Rightarrow>
          (let record_id = id_generator d;
               r' = AList.update id_field (PStr record_id) r
           in (Inr r', AList.update record_id r' d)))"

text \<open>Modelled from the spec: \<open>update\<close> of the storage backend, a full replace, upsert by id.\<close>

definition mem_update :: "string \<Rightarrow> pydict \<Rightarrow> store \<Rightarrow> (exn + pydict) \<times> store" where
  "mem_update record_id r d = (Inr r, AList.update record_id r d)"

text \<open>Modelled from the spec: \<open>delete\<close> of the storage backend, which returns the last known state.\<close>

definition mem_delete :: "string \<Rightarrow> store \<Rightarrow> (exn + pydict) \<times> store" where
  "mem_delete record_id d =
     (case map_of d record_id of
        None \<Rightarrow> (Inl (RecordNotFoundError record_id), d)
      | Some r \<Rightarrow> (Inr r, AList.delete record_id d))"

text \<open>Modelled from the spec: the storage backend as one value; \<open>get_all\<close> lists every record.\<close>

definition mem_backend :: "(store \<Rightarrow> string) \<Rightarrow> store backend" where
  "mem_backend id_generator =
     \<lparr>db_get_all = (\<lambda>filters sorting d. (Inr (map snd d), d)),
      db_get = mem_get,
      db_create = mem_create id_generator,
      db_update = mem_update,
      db_delete = mem_delete\<rparr>"

text \<open>The stored \<^verbatim>\<open>last_modified\<close> of a record, when the store has the record and the field.\<close>

definition stored_last_modified :: "store \<Rightarrow> string \<Rightarrow> pyval option" where
  "stored_last_modified d record_id =
     (case map_of d record_id of
        None \<Rightarrow> None
      | Some r \<Rightarrow> map_of r modified_field)"

section \<open>A concrete library for evaluation\<close>

text \<open>
  \<open>lib0\<close> fixes the library functions at the inputs that the examples below use, where it
  answers as Python does: \<^verbatim>\<open>ast.literal_eval\<close> on \<open>100\<close> (the integer) and on \<open>a b\<close>
  (a \<^verbatim>\<open>SyntaxError\<close>); the decoding of ASCII bytes; \<^verbatim>\<open>json.loads\<close> on three JSON
  objects and on the text \<open>nonsense\<close> (a \<^verbatim>\<open>ValueError\<close>); \<^verbatim>\<open>int\<close> on \<open>abc\<close> (it raises);
  \<^verbatim>\<open>text_type\<close> on a string (the string itself). At every other input the functions
  are left unspecified, and so is the message of colander's string type: the theorems that
  hold for every library do not depend on them, and the examples do not evaluate them there.
\<close>

definition literal_parse0 :: "string \<Rightarrow> exn + pyval" where
  "literal_parse0 s =
     (if s = ''100'' then Inr (PInt 100)
      else if s = ''a b'' then Inl (SyntaxError ''invalid syntax'')
      else undefined)"

definition int_of_text0 :: "string \<Rightarrow> int option" where
  "int_of_text0 s = (if s = ''abc'' then None else undefined)"

definition text_type0 :: "pyval \<Rightarrow> string" where
  "text_type0 v = (case v of PStr s \<Rightarrow> s | _ \<Rightarrow> undefined)"

definition utf8_decode0 :: "string \<Rightarrow> exn + string" where
  "utf8_decode0 raw = (if list_all (\<lambda>c. (of_char c :: nat) < 0x80) raw then Inr raw else undefined)"

definition json_loads0 :: "string \<Rightarrow> exn + pyval" where
  \<open>json_loads0 s =
     (if s = ''{}'' then Inr (PDict [])
      else if s = ''{"last_modified": 5}'' then Inr (PDict [(''last_modified'', PInt 5)])
      else if s = ''{"last_modified": "abc"}'' then Inr (PDict [(''last_modified'', PStr ''abc'')])
      else if s = ''nonsense'' then Inl (ValueError ''Expecting value: line 1 column 1 (char 0)'')
      else undefined)\<close>

definition lib0 :: pylib where
  "lib0 =
     \<lparr>literal_parse = literal_parse0,
      utf8_decode = utf8_decode0,
      json_loads = json_loads0,
      int_of_text = int_of_text0,
      text_type = text_type0,
      not_a_string_msg = (\<lambda>field v. undefined)\<rparr>"

text \<open>A schema with a resource-specific field \<open>foo\<close> beside the common ones.\<close>

definition foo_schema :: "node list" where
  "foo_schema =
     RessourceSchema @ [\<lparr>name = ''foo'', schema_type = Integer, missing = Drop, timestamp = False\<rparr>]"

text \<open>A schema with a field literally named \<open>since\<close>.\<close>

definition since_schema :: "node list" where
  "since_schema =
     RessourceSchema @ [\<lparr>name = ''since'', schema_type = Integer, missing = Drop, timestamp = False\<rparr>]"

text \<open>The second child of \<open>RessourceSchema\<close>, the \<open>TimeStamp\<close> node.\<close>

definition last_modified_node :: node where
  "last_modified_node = \<lparr>name = ''last_modified'', schema_type = Integer, missing = Required, timestamp = True\<rparr>"

text \<open>
  The children that fail on an input mapping, each with the message of its \<^verbatim>\<open>Invalid\<close>,
  in declaration order.
\<close>

definition offending :: "pylib \<Rightarrow> int \<Rightarrow> node list \<Rightarrow> pydict \<Rightarrow> (string \<times> string) list" where
  "offending lib now children value =
     concat (map (\<lambda>nd. case node_deserialize lib now nd
                                (case map_of value (name nd) of Some v \<Rightarrow> CVal v | None \<Rightarrow> CNull) of
                          Inl msg \<Rightarrow> [(name nd, msg)]
                        | Inr a \<Rightarrow> [])
                 children)"

text \<open>
  An id generator for evaluation (an id longer than all stored ids together is fresh), and
  a request for the record \<open>a\<close> on an empty store with no error recorded yet.
\<close>

definition id_generator0 :: "store \<Rightarrow> string" where
  "id_generator0 d = replicate (Suc (length (concat (map fst d)))) (CHR ''0'')"

definition request0 :: "store resource" where
  "request0 =
     \<lparr>GET = [], body = [], matchdict = [(''id'', ''a'')], errors = [], errors_status = [],
      db_state = [], self_record = None\<rparr>"

text \<open>
  The three writing verbs as the router dispatches them: \<^verbatim>\<open>POST\<close> on the collection,
  \<^verbatim>\<open>PUT\<close> and \<^verbatim>\<open>PATCH\<close> on a record.
\<close>

datatype write_op = Create | Put | Patch

definition run_write :: "pylib \<Rightarrow> node list \<Rightarrow> 'db backend \<Rightarrow> int \<Rightarrow> write_op \<Rightarrow> 'db view" where
  "run_write lib mapping be now w =
     (case w of
        Create \<Rightarrow> collection_post lib mapping be now
      | Put \<Rightarrow> put lib mapping be now
      | Patch \<Rightarrow> patch lib mapping be now)"

text \<open>
  A schema of a concrete resource: distinct field names, among them the \<open>TimeStamp\<close> node
  \<open>last_modified\<close> inherited from \<open>RessourceSchema\<close>.
\<close>

definition inherits_RessourceSchema :: "node list \<Rightarrow> bool" where
  "inherits_RessourceSchema mapping =
     (distinct (known_fields mapping) \<and> last_modified_node \<in> set mapping)"

text \<open>
  A writing request as the router receives it: the reading of the clock while it is
  handled, the verb, the record id of the URL (a create has none) and the raw body. It
  meets a resource whose request carries no error yet and whose backend holds the store.
\<close>

record write_request =
  clock :: int
  verb :: write_op
  url_id :: string
  raw_body :: string

definition request_of :: "write_request \<Rightarrow> store \<Rightarrow> store resource" where
  "request_of w d =
     \<lparr>GET = [], body = raw_body w,
      matchdict = (case verb w of Create \<Rightarrow> [] | _ \<Rightarrow> [(''id'', url_id w)]),
      errors = [], errors_status = [], db_state = d, self_record = None\<rparr>"

text \<open>What the view answers to a writing request, and the store it leaves.\<close>

definition answer_of ::
  "pylib \<Rightarrow> node list \<Rightarrow> (store \<Rightarrow> string) \<Rightarrow> write_request \<Rightarrow> store \<Rightarrow> exn + pyval option" where
  "answer_of lib mapping g w d =
     fst (run_write lib mapping (mem_backend g) (clock w) (verb w) (request_of w d))"

definition apply_write ::
  "pylib \<Rightarrow> node list \<Rightarrow> (store \<Rightarrow> string) \<Rightarrow> write_request \<Rightarrow> store \<Rightarrow> store" where
  "apply_write lib mapping g w d =
     db_state (snd (run_write lib mapping (mem_backend g) (clock w) (verb w) (request_of w d)))"

text \<open>The body of a request is a JSON object that has a \<open>last_modified\<close> key.\<close>

definition supplies_last_modified :: "pylib \<Rightarrow> write_request \<Rightarrow> bool" where
  "supplies_last_modified lib w =
     (case deserialize lib (raw_body w) of
        Inr (PDict m) \<Rightarrow> map_of m modified_field \<noteq> None
      | _ \<Rightarrow> False)"

text \<open>
  The stored integer \<open>last_modified\<close> of a record (\<open>None\<close> while the store has no such
  record), and its values after each request of a sequence handled in turn.
\<close>

definition stored_int :: "store \<Rightarrow> string \<Rightarrow> int option" where
  "stored_int d record_id =
     (case stored_last_modified d record_id of Some (PInt n) \<Rightarrow> Some n | _ \<Rightarrow> None)"

fun last_modified_trace ::
  "pylib \<Rightarrow> node list \<Rightarrow> (store \<Rightarrow> string) \<Rightarrow> string \<Rightarrow> write_request list \<Rightarrow> store
     \<Rightarrow> int option list" where
  "last_modified_trace lib mapping g record_id [] d = []"
| "last_modified_trace lib mapping g record_id (w # ws) d =
     (let d' = apply_write lib mapping g w d
      in stored_int d' record_id # last_modified_trace lib mapping g record_id ws d')"

text \<open>
  Three sequences on an empty store, each a create with an empty body at second 1000
  followed by a request on the created record \<open>0\<close>: a put at second 2000 whose body supplies
  \<open>last_modified = 5\<close>; a patch with an empty body at second 900, the clock having been set
  back; a patch at second 2000 whose body supplies \<open>last_modified = 5\<close>. And a store holding
  one record \<open>a\<close> stamped 1000, with a request on it.
\<close>

definition create_1000 :: write_request where
  "create_1000 = \<lparr>clock = 1000, verb = Create, url_id = [], raw_body = []\<rparr>"

definition put_2000 :: write_request where
  \<open>put_2000 = \<lparr>clock = 2000, verb = Put, url_id = ''0'', raw_body = ''{"last_modified": 5}''\<rparr>\<close>

definition patch_900 :: write_request where
  "patch_900 = \<lparr>clock = 900, verb = Patch, url_id = ''0'', raw_body = []\<rparr>"

definition patch_2000 :: write_request where
  \<open>patch_2000 = \<lparr>clock = 2000, verb = Patch, url_id = ''0'', raw_body = ''{"last_modified": 5}''\<rparr>\<close>

definition store_a :: store where
  "store_a = [(''a'', [(''_id'', PStr ''a''), (''last_modified'', PInt 1000)])]"

definition request_a :: "store resource" where
  "request_a = request0\<lparr>db_state := store_a\<rparr>"

section \<open>Properties of the filter translation\<close>

lemma extract_filters_loop_append:
  "extract_filters_loop lib known (xs @ ys) acc =
     (case extract_filters_loop lib known xs acc of
        Inl e \<Rightarrow> Inl e
      | Inr fs \<Rightarrow> extract_filters_loop lib known ys fs)"
  by (induction xs arbitrary: acc) (auto split: sum.splits simp: Let_def)

lemma lower_1: "lower ''1'' = ''1''"
  by code_simp

lemma decode_token_1: "decode_filter_value lib ''1'' = Inr (PBool True)"
  by (simp add: decode_filter_value_def lower_1 ast_literal_eval_def)

lemma lower_100: "lower ''100'' = ''100''"
  by code_simp

lemma decode_100:
  "literal_parse lib ''100'' = Inr v \<Longrightarrow> decode_filter_value lib ''100'' = Inr v"
  by (simp add: decode_filter_value_def lower_100 ast_literal_eval_def)

lemma lib0_literal_100: "literal_parse lib0 ''100'' = Inr (PInt 100)"
  by (simp add: lib0_def literal_parse0_def)

lemma foo_schema_known: "known_fields foo_schema = [''_id'', ''last_modified'', ''foo'']"
  by (simp add: known_fields_def foo_schema_def RessourceSchema_def)

lemma py_eq_True_1: "py_eq (PBool True) (PInt 1)"
  by (simp add: py_eq_def)

text \<open>
  Claim C1. For a schema that knows \<open>foo\<close> and not \<open>since\<close>, the query
  \<open>{"foo": "1", "since": "100"}\<close> gives a list of filters that equals, by Python's \<^verbatim>\<open>==\<close>,
  the two-element list \<open>[("foo", 1, "=="), ("last_modified", 100, ">=")]\<close>, in that order.
  (The value of the first filter is the boolean \<^verbatim>\<open>True\<close>, since \<open>"1"\<close> is one of the boolean
  tokens, and \<^verbatim>\<open>True == 1\<close>.)
\<close>

theorem extract_filters_foo_since:
  assumes "''foo'' \<in> set (known_fields mapping)"
    and "''since'' \<notin> set (known_fields mapping)"
    and "literal_parse lib ''100'' = Inr (PInt 100)"
  shows "\<exists>filters. extract_filters lib mapping [(''foo'', ''1''), (''since'', ''100'')] = Inr filters
           \<and> filters_eq filters [(''foo'', PInt 1, ''==''), (''last_modified'', PInt 100, ''>='')]"
proof -
  have "extract_filters lib mapping [(''foo'', ''1''), (''since'', ''100'')] =
          Inr [(''foo'', PBool True, ''==''), (''last_modified'', PInt 100, ''>='')]"
    using assms by (simp add: extract_filters_def decode_token_1 decode_100 modified_field_def)
  moreover have "filters_eq [(''foo'', PBool True, ''==''), (''last_modified'', PInt 100, ''>='')]
                   [(''foo'', PInt 1, ''==''), (''last_modified'', PInt 100, ''>='')]"
    by (simp add: filters_eq_def py_eq_def)
  ultimately show ?thesis by blast
qed

theorem extract_filters_foo_since_witness:
  "''foo'' \<in> set (known_fields foo_schema) \<and> ''since'' \<notin> set (known_fields foo_schema)
   \<and> literal_parse lib0 ''100'' = Inr (PInt 100)
   \<and> extract_filters lib0 foo_schema [(''foo'', ''1''), (''since'', ''100'')] =
           Inr [(''foo'', PBool True, ''==''), (''last_modified'', PInt 100, ''>='')]
   \<and> filters_eq [(''foo'', PBool True, ''==''), (''last_modified'', PInt 100, ''>='')]
        [(''foo'', PInt 1, ''==''), (''last_modified'', PInt 100, ''>='')]"
proof -
  have k: "''foo'' \<in> set (known_fields foo_schema)" "''since'' \<notin> set (known_fields foo_schema)"
    by (simp_all add: foo_schema_known)
  have e: "extract_filters lib0 foo_schema [(''foo'', ''1''), (''since'', ''100'')] =
             Inr [(''foo'', PBool True, ''==''), (''last_modified'', PInt 100, ''>='')]"
    by (simp add: extract_filters_def foo_schema_known decode_token_1 decode_100 lib0_literal_100
        modified_field_def)
  from extract_filters_foo_since [OF k lib0_literal_100] e
  have "filters_eq [(''foo'', PBool True, ''==''), (''last_modified'', PInt 100, ''>='')]
          [(''foo'', PInt 1, ''==''), (''last_modified'', PInt 100, ''>='')]"
    by simp
  then show ?thesis using k lib0_literal_100 e by simp
qed

text \<open>
  What the decoding does when the literal parse fails with a \<^verbatim>\<open>ValueError\<close>: the raw
  string is the result.
\<close>

lemma decode_filter_value_fallback:
  assumes "lower value \<notin> set [''on'', ''true'', ''yes'', ''1'']"
    and "lower value \<notin> set [''off'', ''false'', ''no'', ''0'']"
    and "literal_parse lib value = Inl (ValueError m)"
  shows "decode_filter_value lib value = Inr (PStr value)"
  using assms by (simp add: decode_filter_value_def ast_literal_eval_def)

lemma lower_a_b: "lower ''a b'' = ''a b''"
  by code_simp

lemma lib0_literal_a_b: "literal_parse lib0 ''a b'' = Inl (SyntaxError ''invalid syntax'')"
  by (simp add: lib0_def literal_parse0_def)

lemma decode_a_b: "decode_filter_value lib0 ''a b'' = Inl (SyntaxError ''invalid syntax'')"
  by (simp add: decode_filter_value_def lower_a_b ast_literal_eval_def lib0_literal_a_b)

text \<open>
  Claim C2 at the value \<open>"a b"\<close>, which is no boolean token and no Python expression:
  \<^verbatim>\<open>ast.literal_eval\<close> raises \<^verbatim>\<open>SyntaxError\<close>, the handler for \<^verbatim>\<open>ValueError\<close> does not
  catch it, and the exception leaves the decoding, \<open>extract_filters\<close> and the view
  \<open>collection_get\<close>, whatever the backend and the rest of the request.
\<close>

theorem decode_filter_value_raises:
  "decode_filter_value lib0 ''a b'' = Inl (SyntaxError ''invalid syntax'')
   \<and> extract_filters lib0 foo_schema [(''foo'', ''a b'')] = Inl (SyntaxError ''invalid syntax'')
   \<and> fst (collection_get lib0 foo_schema be (self\<lparr>GET := [(''foo'', ''a b'')]\<rparr>))
       = Inl (SyntaxError ''invalid syntax'')"
  by (simp add: decode_a_b extract_filters_def collection_get_def)

text \<open>
  Claim C9. When \<open>since\<close> is a known field, a query parameter named \<open>since\<close> whose value
  decodes to \<open>v\<close> contributes two filters, wherever it stands in the query: the equality
  on \<open>since\<close>, then the lower bound on \<open>last_modified\<close>, both with \<open>v\<close>.
\<close>

theorem since_field_two_filters:
  assumes "''since'' \<in> set (known_fields mapping)"
    and "decode_filter_value lib value = Inr v"
    and "extract_filters lib mapping before = Inr fs"
  shows "extract_filters lib mapping (before @ (''since'', value) # after) =
           extract_filters_loop lib (known_fields mapping) after
             (fs @ [(''since'', v, ''==''), (''last_modified'', v, ''>='')])"
  using assms by (simp add: extract_filters_def extract_filters_loop_append modified_field_def)

theorem since_field_two_filters_witness:
  "''since'' \<in> set (known_fields since_schema)
   \<and> decode_filter_value lib0 ''100'' = Inr (PInt 100)
   \<and> extract_filters lib0 since_schema [] = Inr []
   \<and> extract_filters lib0 since_schema ([] @ (''since'', ''100'') # []) =
        Inr [(''since'', PInt 100, ''==''), (''last_modified'', PInt 100, ''>='')]"
  using since_field_two_filters [of since_schema lib0 "''100''" "PInt 100" "[]" "[]" "[]"]
  by (simp add: known_fields_def since_schema_def RessourceSchema_def extract_filters_def
      decode_100 lib0_literal_100)

section \<open>Properties of the sort translation\<close>

lemma extract_sorting_loop_append:
  "extract_sorting_loop (xs @ ys) acc = extract_sorting_loop ys (extract_sorting_loop xs acc)"
  by (induction xs arbitrary: acc) (auto split: option.splits simp: Let_def)

lemma is_word_not_space: "is_word c \<Longrightarrow> \<not> is_space c"
  by (auto simp: is_word_def is_space_def Let_def)

lemma is_word_not_sign: "is_word c \<Longrightarrow> c \<noteq> CHR ''-'' \<and> c \<noteq> CHR ''+''"
  by (auto simp: is_word_def Let_def)

lemma is_space_not_sign: "is_space c \<Longrightarrow> c \<noteq> CHR ''-'' \<and> c \<noteq> CHR ''+''"
  by (auto simp: is_space_def Let_def)

lemma takeWhile_word_prefix:
  "w \<noteq> [] \<Longrightarrow> list_all is_word w \<Longrightarrow> takeWhile is_word (w @ rest) \<noteq> []"
  by (cases w) auto

lemma re_match_sort_word:
  "w \<noteq> [] \<Longrightarrow> list_all is_word w \<Longrightarrow> re_match_sort (w @ rest) \<noteq> None"
  by (cases w) (auto simp: re_match_sort_def is_word_not_space is_word_not_sign)

lemma re_match_sort_sign_word:
  assumes "sg = [] \<or> sg = ''-'' \<or> sg = ''+''" "w \<noteq> []" "list_all is_word w"
  shows "re_match_sort (sg @ w @ rest) \<noteq> None"
proof (cases "sg = []")
  case True
  then show ?thesis using assms re_match_sort_word by simp
next
  case False
  then obtain c where c: "sg = [c]" "c = CHR ''-'' \<or> c = CHR ''+''"
    using assms(1) by auto
  have "\<not> is_space c" using c(2) is_space_not_sign by blast
  then show ?thesis
    using c assms(2,3) takeWhile_word_prefix [of w rest]
    by (auto simp: re_match_sort_def)
qed

lemma prefix_matches_imp_match:
  assumes "prefix_matches token"
  shows "re_match_sort token \<noteq> None"
proof -
  from assms obtain ws sg w rest where d:
    "token = ws @ sg @ w @ rest" "length ws \<le> 1" "list_all is_space ws"
    "sg = [] \<or> sg = ''-'' \<or> sg = ''+''" "w \<noteq> []" "list_all is_word w"
    unfolding prefix_matches_def by blast
  show ?thesis
  proof (cases ws)
    case Nil
    then show ?thesis using d re_match_sort_sign_word by simp
  next
    case (Cons c cs)
    then have ws: "ws = [c]" "is_space c" using d(2,3) by auto
    have tail: "re_match_sort (sg @ w @ rest) \<noteq> None"
      using d re_match_sort_sign_word by simp
    obtain x xs where x: "sg @ w @ rest = x # xs" "\<not> is_space x"
    proof (cases sg)
      case Nil
      then obtain y ys where "w = y # ys" using d(5) by (cases w) auto
      then show ?thesis using that [of y "ys @ rest"] Nil d(6) is_word_not_space by auto
    next
      case (Cons y ys)
      then show ?thesis using that [of y "ys @ w @ rest"] d(4) is_space_not_sign by auto
    qed
    have "re_match_sort (c # x # xs) = re_match_sort (x # xs)"
      using ws(2) x(2) by (simp add: re_match_sort_def)
    then show ?thesis using tail ws(1) d(1) x(1) by simp
  qed
qed

lemma match_imp_prefix_matches:
  assumes "re_match_sort token \<noteq> None"
  shows "prefix_matches token"
proof -
  define s1 where "s1 = (case token of c # cs \<Rightarrow> if is_space c then cs else token | [] \<Rightarrow> [])"
  define ws where "ws = (case token of c # cs \<Rightarrow> if is_space c then [c] else [] | [] \<Rightarrow> [])"
  define sg where "sg = (case s1 of c # cs \<Rightarrow> if c = CHR ''-'' \<or> c = CHR ''+'' then [c] else [] | [] \<Rightarrow> [])"
  define s2 where "s2 = (case s1 of c # cs \<Rightarrow> if c = CHR ''-'' \<or> c = CHR ''+'' then cs else s1 | [] \<Rightarrow> [])"
  have t: "token = ws @ s1" "length ws \<le> 1" "list_all is_space ws"
    by (auto simp: ws_def s1_def split: list.splits)
  have s: "s1 = sg @ s2" "sg = [] \<or> sg = ''-'' \<or> sg = ''+''"
    by (auto simp: sg_def s2_def split: list.splits)
  have "re_match_sort token = (if takeWhile is_word s2 = [] then None else Some (sg, takeWhile is_word s2))"
    by (auto simp: re_match_sort_def s1_def sg_def s2_def Let_def split: list.splits)
  then have w: "takeWhile is_word s2 \<noteq> []" using assms by (auto split: if_splits)
  have "token = ws @ sg @ takeWhile is_word s2 @ dropWhile is_word s2"
    using t(1) s(1) by simp
  moreover have "list_all is_word (takeWhile is_word s2)"
    by (simp add: list_all_iff) (meson set_takeWhileD)
  ultimately show ?thesis
    unfolding prefix_matches_def using t(2,3) s(2) w by blast
qed

text \<open>
  Beyond ASCII: an accented word is a run of word characters, and the no-break space is
  whitespace.
\<close>

lemma re_match_sort_accented:
  "re_match_sort [CHR 0xE9, CHR ''t'', CHR 0xE9] = Some ([], [CHR 0xE9, CHR ''t'', CHR 0xE9])"
  "re_match_sort (CHR 0xA0 # ''abc'') = Some ([], ''abc'')"
  by code_simp+

lemma re_match_sort_None_iff: "re_match_sort token = None \<longleftrightarrow> \<not> prefix_matches token"
  using prefix_matches_imp_match match_imp_prefix_matches by blast

text \<open>
  Claim C4, as the code has it. \<^verbatim>\<open>re.match\<close> asks only that a prefix of the token
  matches. A token of the comma-split \<open>sort\<close> parameter no prefix of which is at most one
  whitespace character, an optional sign and one or more word characters contributes no
  sort directive; the function is total, so nothing is raised.
\<close>

theorem extract_sorting_skips_unmatched:
  assumes "split_comma (get_param queryparams ''sort'' '''') = before @ token # after"
    and "\<not> prefix_matches token"
  shows "extract_sorting queryparams = extract_sorting_loop (before @ after) []"
  using assms
  by (simp add: extract_sorting_def extract_sorting_loop_append re_match_sort_None_iff [symmetric])

theorem extract_sorting_skips_unmatched_witness:
  "split_comma (get_param [(''sort'', ''a,!b,c'')] ''sort'' '''') = [''a''] @ ''!b'' # [''c'']
   \<and> \<not> prefix_matches ''!b''
   \<and> extract_sorting [(''sort'', ''a,!b,c'')] = extract_sorting_loop ([''a''] @ [''c'']) []
   \<and> extract_sorting [(''sort'', ''a,!b,c'')] = [(''a'', 1), (''c'', 1)]"
proof -
  have s: "split_comma (get_param [(''sort'', ''a,!b,c'')] ''sort'' '''') = [''a''] @ ''!b'' # [''c'']"
    by (simp add: get_param_def)
  have "re_match_sort ''!b'' = None"
    by code_simp
  then have p: "\<not> prefix_matches ''!b''"
    by (simp add: re_match_sort_None_iff)
  have e: "extract_sorting_loop ([''a''] @ [''c'']) [] = [(''a'', 1), (''c'', 1)]"
    by code_simp
  show ?thesis
    using extract_sorting_skips_unmatched [OF s p] s p e by simp
qed

text \<open>
  Claim C4 as stated fails at the token \<open>"title desc"\<close>: it has not the shape the claim
  describes (an inner blank followed by more text), and a directive is emitted for it.
\<close>

theorem extract_sorting_title_desc_counterexample:
  "\<not> spec_token_shape ''title desc''
   \<and> split_comma (get_param [(''sort'', ''title desc'')] ''sort'' '''') = [''title desc'']
   \<and> extract_sorting [(''sort'', ''title desc'')] = [(''title'', 1)]"
  by code_simp

section \<open>Properties of the schema validation\<close>


lemma validate_Inr:
  assumes "validate lib mapping now cstruct = Inr r"
  shows "\<exists>d. cstruct = PDict d \<and> Mapping_impl lib now mapping d [] [] = (r, [])"
proof (cases cstruct)
  case (PDict d)
  obtain res err where m: "Mapping_impl lib now mapping d [] [] = (res, err)"
    by (cases "Mapping_impl lib now mapping d [] []") auto
  show ?thesis
  proof (cases err)
    case Nil
    then show ?thesis using assms PDict m by (simp add: validate_def Mapping_deserialize_def)
  next
    case (Cons e es)
    then show ?thesis using assms PDict m by (simp add: validate_def Mapping_deserialize_def)
  qed
qed (use assms in \<open>simp_all add: validate_def Mapping_deserialize_def\<close>)


lemma Integer_deserialize_int: "Integer_deserialize lib nd (CVal (PInt n)) = Inr (CVal (PInt n))"
  by (simp add: Integer_deserialize_def eq_zero_def py_int_def)

lemma SchemaNode_deserialize_int:
  "schema_type nd = Integer \<Longrightarrow> SchemaNode_deserialize lib nd (CVal (PInt n)) = Inr (AVal (PInt n))"
  by (simp add: SchemaNode_deserialize_def typ_deserialize_def Integer_deserialize_int)

text \<open>
  Claim C8. A \<open>TimeStamp\<close> node (an integer node) that is required deserializes
  \<^verbatim>\<open>colander.null\<close>, which is what the mapping hands over for an absent field, to the
  clock reading \<open>now\<close>; and it deserializes a given integer to exactly that integer.
\<close>

theorem TimeStamp_deserialize_now_or_given:
  assumes "timestamp nd" and "schema_type nd = Integer"
  shows "(missing nd = Required \<longrightarrow> node_deserialize lib now nd CNull = Inr (AVal (PInt now)))
         \<and> node_deserialize lib now nd (CVal (PInt n)) = Inr (AVal (PInt n))"
  using assms
  by (simp add: node_deserialize_def TimeStamp_deserialize_def SchemaNode_deserialize_int)

theorem TimeStamp_deserialize_now_or_given_witness:
  "timestamp last_modified_node \<and> schema_type last_modified_node = Integer
   \<and> missing last_modified_node = Required
   \<and> node_deserialize lib0 1425000000 last_modified_node CNull = Inr (AVal (PInt 1425000000))
   \<and> node_deserialize lib0 1425000000 last_modified_node (CVal (PInt 42)) = Inr (AVal (PInt 42))"
  using TimeStamp_deserialize_now_or_given [of last_modified_node lib0 1425000000 42]
  by (simp add: last_modified_node_def)



lemma update_fresh: "k \<notin> fst ` set al \<Longrightarrow> AList.update k v al = al @ [(k, v)]"
  by (induction al) auto

lemma offending_cong:
  "(\<And>nd. nd \<in> set children \<Longrightarrow> map_of value' (name nd) = map_of value (name nd))
   \<Longrightarrow> offending lib now children value' = offending lib now children value"
  unfolding offending_def by (induction children) auto

lemma offending_keys: "fst ` set (offending lib now children value) \<subseteq> name ` set children"
  unfolding offending_def by (induction children) (auto split: sum.splits)

lemma Mapping_impl_errors:
  assumes "distinct (map name children)"
    and "\<And>nd. nd \<in> set children \<Longrightarrow> name nd \<notin> fst ` set error"
  shows "snd (Mapping_impl lib now children value result error)
           = error @ offending lib now children value"
  using assms
proof (induction children arbitrary: "value" result error)
  case Nil
  then show ?case by (simp add: offending_def)
next
  case (Cons subnode rest)
  let ?c = "case map_of value (name subnode) of Some v \<Rightarrow> CVal v | None \<Rightarrow> CNull"
  let ?value' = "AList.delete (name subnode) value"
  have d: "distinct (map name rest)" and nin: "name subnode \<notin> name ` set rest"
    using Cons.prems(1) by auto
  have neq: "name nd \<noteq> name subnode" if "nd \<in> set rest" for nd
  proof -
    from that have "name nd \<in> name ` set rest" by (rule imageI)
    then show ?thesis using nin by metis
  qed
  have same: "offending lib now rest ?value' = offending lib now rest value"
  proof (rule offending_cong)
    fix nd assume "nd \<in> set rest"
    then have "name nd \<noteq> name subnode" by (rule neq)
    then show "map_of ?value' (name nd) = map_of value (name nd)"
      by (simp add: delete_conv')
  qed
  have off: "offending lib now (subnode # rest) value =
               (case node_deserialize lib now subnode ?c of Inl msg \<Rightarrow> [(name subnode, msg)] | Inr a \<Rightarrow> [])
               @ offending lib now rest value"
    by (simp add: offending_def)
  show ?case
  proof (cases "node_deserialize lib now subnode ?c")
    case (Inl msg)
    have fresh: "AList.update (name subnode) msg error = error @ [(name subnode, msg)]"
      using Cons.prems(2) [of subnode] by (simp add: update_fresh)
    have "snd (Mapping_impl lib now rest ?value' result (error @ [(name subnode, msg)]))
            = (error @ [(name subnode, msg)]) @ offending lib now rest ?value'"
    proof (rule Cons.IH [OF d])
      fix nd assume "nd \<in> set rest"
      then show "name nd \<notin> fst ` set (error @ [(name subnode, msg)])"
        using Cons.prems(2) [of nd] neq [of nd] by auto
    qed
    then show ?thesis using Inl fresh same off by (simp add: Let_def)
  next
    case (Inr a)
    have ih: "\<And>res. snd (Mapping_impl lib now rest ?value' res error)
                 = error @ offending lib now rest ?value'"
      using Cons.IH [OF d] Cons.prems(2) by simp
    show ?thesis using Inr ih same off by (cases a) (simp_all add: Let_def)
  qed
qed

lemma validate_Inl:
  assumes "validate lib mapping now cstruct = Inl e"
  shows "\<exists>es. e = Invalid es \<and> es \<noteq> []
           \<and> (\<forall>d. cstruct = PDict d \<longrightarrow> es = snd (Mapping_impl lib now mapping d [] []))"
proof (cases cstruct)
  case (PDict d)
  obtain res err where m: "Mapping_impl lib now mapping d [] [] = (res, err)"
    by (cases "Mapping_impl lib now mapping d [] []") auto
  show ?thesis
  proof (cases err)
    case Nil
    then show ?thesis using assms PDict m by (simp add: validate_def Mapping_deserialize_def)
  next
    case (Cons x xs)
    then show ?thesis using assms PDict m by (auto simp: validate_def Mapping_deserialize_def)
  qed
qed (use assms in \<open>auto simp: validate_def Mapping_deserialize_def\<close>)






lemma base_schema_distinct: "distinct (known_fields RessourceSchema)"
  by (simp add: known_fields_def RessourceSchema_def)






section \<open>Properties of the error mapping\<close>

text \<open>
  Claim C7. When the backend raises record-not-found in \<open>get\<close>, the decorated view
  returns \<^verbatim>\<open>None\<close> (no body) and no exception: exactly one entry is appended to the
  request's errors, at location \<open>path\<close> on field \<open>id\<close> with the exception's message, and
  the status is set to 404.
\<close>

theorem get_not_found_404:
  assumes "matchdict_id self = Inr record_id"
    and "db_get be record_id (db_state self) = (Inl (RecordNotFoundError msg), d)"
  shows "get be self =
           (Inr None, self\<lparr>db_state := d,
                            errors := errors self @ [(''path'', ''id'', msg)],
                            errors_status := ''404 Resource Not Found''\<rparr>)"
  using assms by (simp add: get_def exists_or_404_def get_view_def)

theorem get_not_found_404_witness:
  "matchdict_id request0 = Inr ''a''
   \<and> db_get (mem_backend id_generator0) ''a'' (db_state request0)
       = (Inl (RecordNotFoundError ''a''), [])
   \<and> get (mem_backend id_generator0) request0 =
       (Inr None, request0\<lparr>db_state := [],
                          errors := errors request0 @ [(''path'', ''id'', ''a'')],
                          errors_status := ''404 Resource Not Found''\<rparr>)"
  using get_not_found_404 [of request0 "''a''" "mem_backend id_generator0" "''a''" "[]"]
  by (simp add: matchdict_id_def request0_def mem_backend_def mem_get_def)

text \<open>
  Claim C6. When the body of \<open>collection_post\<close> fails to parse with a \<^verbatim>\<open>ValueError\<close>, or
  parses and fails validation, the decorated view returns \<^verbatim>\<open>None\<close> (no body) and no
  exception, the status is set to 400, and the backend is not called: the resulting state
  does not depend on the backend and its store is the one the request started with. A
  \<^verbatim>\<open>ValueError\<close> appends one entry at location \<open>body\<close> on field \<open>body\<close>; a validation
  failure appends one entry at location \<open>body\<close> per error of the \<^verbatim>\<open>Invalid\<close>, and for a
  body that is a mapping these are the offending fields with their messages.
\<close>

theorem collection_post_400:
  assumes "distinct (known_fields mapping)"
  shows "(deserialize lib (body self) = Inl (ValueError msg) \<longrightarrow>
            collection_post lib mapping be now self =
              (Inr None, self\<lparr>errors := errors self @ [(''body'', ''body'', msg)],
                              errors_status := ''400 Bad Request''\<rparr>))
       \<and> (deserialize lib (body self) = Inr cstruct \<and> validate lib mapping now cstruct = Inl e \<longrightarrow>
            (\<exists>es. e = Invalid es \<and> es \<noteq> []
               \<and> collection_post lib mapping be now self =
                   (Inr None,
                    self\<lparr>errors := errors self @ map (\<lambda>(field, error). (''body'', field, error)) es,
                         errors_status := ''400 Bad Request''\<rparr>)
               \<and> (\<forall>d. cstruct = PDict d \<longrightarrow> es = offending lib now mapping d)))"
proof (intro conjI impI)
  assume "deserialize lib (body self) = Inl (ValueError msg)"
  then show "collection_post lib mapping be now self =
              (Inr None, self\<lparr>errors := errors self @ [(''body'', ''body'', msg)],
                              errors_status := ''400 Bad Request''\<rparr>)"
    by (simp add: collection_post_def validates_or_400_def collection_post_view_def)
next
  assume a: "deserialize lib (body self) = Inr cstruct \<and> validate lib mapping now cstruct = Inl e"
  from validate_Inl [of lib mapping now cstruct e] a obtain es where
    es: "e = Invalid es" "es \<noteq> []"
        "\<forall>d. cstruct = PDict d \<longrightarrow> es = snd (Mapping_impl lib now mapping d [] [])"
    by blast
  have "\<And>d. snd (Mapping_impl lib now mapping d [] []) = offending lib now mapping d"
    using Mapping_impl_errors [of mapping "[]" lib now _ "[]"] assms
    by (simp add: known_fields_def)
  then have off: "\<forall>d. cstruct = PDict d \<longrightarrow> es = offending lib now mapping d"
    using es(3) by simp
  have post: "collection_post lib mapping be now self =
                (Inr None,
                 self\<lparr>errors := errors self @ map (\<lambda>(field, error). (''body'', field, error)) es,
                      errors_status := ''400 Bad Request''\<rparr>)"
    using a es(1)
    by (simp add: collection_post_def validates_or_400_def collection_post_view_def)
  show "\<exists>es. e = Invalid es \<and> es \<noteq> []
               \<and> collection_post lib mapping be now self =
                   (Inr None,
                    self\<lparr>errors := errors self @ map (\<lambda>(field, error). (''body'', field, error)) es,
                         errors_status := ''400 Bad Request''\<rparr>)
               \<and> (\<forall>d. cstruct = PDict d \<longrightarrow> es = offending lib now mapping d)"
    using es(1,2) post off by blast
qed

lemma deserialize_nonsense:
  "deserialize lib0 ''nonsense'' = Inl (ValueError ''Expecting value: line 1 column 1 (char 0)'')"
  by code_simp

lemma deserialize_abc:
  \<open>deserialize lib0 ''{"last_modified": "abc"}'' = Inr (PDict [(''last_modified'', PStr ''abc'')])\<close>
  by code_simp

lemma validate_abc:
  "validate lib0 RessourceSchema 1425000000 (PDict [(''last_modified'', PStr ''abc'')])
     = Inl (Invalid [(''last_modified'', [CHR 0x22] @ ''abc'' @ [CHR 0x22] @ '' is not a number'')])"
  by code_simp

theorem collection_post_400_witness:
  \<open>distinct (known_fields RessourceSchema)
   \<and> deserialize lib0 (body (request0\<lparr>body := ''nonsense''\<rparr>))
       = Inl (ValueError ''Expecting value: line 1 column 1 (char 0)'')
   \<and> collection_post lib0 RessourceSchema (mem_backend id_generator0) 1425000000
        (request0\<lparr>body := ''nonsense''\<rparr>)
       = (Inr None,
          request0\<lparr>body := ''nonsense'',
                   errors := [(''body'', ''body'', ''Expecting value: line 1 column 1 (char 0)'')],
                   errors_status := ''400 Bad Request''\<rparr>)
   \<and> deserialize lib0 (body (request0\<lparr>body := ''{"last_modified": "abc"}''\<rparr>))
       = Inr (PDict [(''last_modified'', PStr ''abc'')])
   \<and> validate lib0 RessourceSchema 1425000000 (PDict [(''last_modified'', PStr ''abc'')])
       = Inl (Invalid [(''last_modified'', [CHR 0x22] @ ''abc'' @ [CHR 0x22] @ '' is not a number'')])
   \<and> collection_post lib0 RessourceSchema (mem_backend id_generator0) 1425000000
        (request0\<lparr>body := ''{"last_modified": "abc"}''\<rparr>)
       = (Inr None,
          request0\<lparr>body := ''{"last_modified": "abc"}'',
                   errors := [(''body'', ''last_modified'',
                               [CHR 0x22] @ ''abc'' @ [CHR 0x22] @ '' is not a number'')],
                   errors_status := ''400 Bad Request''\<rparr>)\<close>
proof -
  let ?a = "request0\<lparr>body := ''nonsense''\<rparr>"
  let ?b = \<open>request0\<lparr>body := ''{"last_modified": "abc"}''\<rparr>\<close>
  let ?m = "[CHR 0x22] @ ''abc'' @ [CHR 0x22] @ '' is not a number''"
  have a: "deserialize lib0 (body ?a) = Inl (ValueError ''Expecting value: line 1 column 1 (char 0)'')"
    by (simp add: deserialize_nonsense)
  have b: "deserialize lib0 (body ?b) = Inr (PDict [(''last_modified'', PStr ''abc'')])"
    by (simp add: deserialize_abc)
  have ea: "errors ?a = []" and eb: "errors ?b = []"
    by (simp_all add: request0_def)
  from collection_post_400 [OF base_schema_distinct, where lib = lib0 and self = ?a
        and msg = "''Expecting value: line 1 column 1 (char 0)''"
        and be = "mem_backend id_generator0" and now = 1425000000]
    a ea
  have ra: "collection_post lib0 RessourceSchema (mem_backend id_generator0) 1425000000 ?a
       = (Inr None,
          request0\<lparr>body := ''nonsense'',
                   errors := [(''body'', ''body'', ''Expecting value: line 1 column 1 (char 0)'')],
                   errors_status := ''400 Bad Request''\<rparr>)"
    by simp
  from collection_post_400 [OF base_schema_distinct, where lib = lib0 and self = ?b
        and cstruct = "PDict [(''last_modified'', PStr ''abc'')]"
        and e = "Invalid [(''last_modified'', ?m)]"
        and be = "mem_backend id_generator0" and now = 1425000000]
    b validate_abc eb
  have rb: "collection_post lib0 RessourceSchema (mem_backend id_generator0) 1425000000 ?b
       = (Inr None,
          ?b\<lparr>errors := [(''body'', ''last_modified'', ?m)],
               errors_status := ''400 Bad Request''\<rparr>)"
    by auto
  show ?thesis
    using base_schema_distinct a ra b validate_abc rb by simp
qed

text \<open>
  A truthy \<open>_id\<close> that is no string is a schema violation like any other: the body
  \<open>{"_id": true}\<close> is refused with one error on \<open>_id\<close>, and \<open>{"_id": true, "last_modified":
  "abc"}\<close> with two, one per offending field; \<open>create\<close> is not called.
\<close>

lemma validate_id_not_a_string:
  "validate lib RessourceSchema now (PDict [(''_id'', PBool True)])
     = Inl (Invalid [(''_id'', not_a_string_msg lib ''_id'' (PBool True))])"
  by (simp add: validate_def Mapping_deserialize_def RessourceSchema_def Let_def
      node_deserialize_def TimeStamp_deserialize_def SchemaNode_deserialize_def
      typ_deserialize_def String_deserialize_def Integer_deserialize_def eq_zero_def
      py_int_def)

lemma validate_id_and_number:
  assumes "int_of_text lib ''abc'' = None"
  shows "validate lib RessourceSchema now
           (PDict [(''_id'', PBool True), (''last_modified'', PStr ''abc'')])
     = Inl (Invalid [(''_id'', not_a_string_msg lib ''_id'' (PBool True)),
                     (''last_modified'',
                      [CHR 0x22] @ text_type lib (PStr ''abc'') @ [CHR 0x22] @ '' is not a number'')])"
  using assms
  by (simp add: validate_def Mapping_deserialize_def RessourceSchema_def Let_def
      node_deserialize_def TimeStamp_deserialize_def SchemaNode_deserialize_def
      typ_deserialize_def String_deserialize_def Integer_deserialize_def eq_zero_def
      py_int_def)

lemma collection_post_id_not_a_string:
  assumes "deserialize lib (body self) = Inr (PDict [(''_id'', PBool True)])"
  shows "collection_post lib RessourceSchema be now self =
           (Inr None,
            self\<lparr>errors := errors self @ [(''body'', ''_id'', not_a_string_msg lib ''_id'' (PBool True))],
                 errors_status := ''400 Bad Request''\<rparr>)"
  using assms
  by (simp add: collection_post_def validates_or_400_def collection_post_view_def
      validate_id_not_a_string)

section \<open>Properties of the writes\<close>

lemma Mapping_impl_result_other:
  "k \<notin> name ` set children \<Longrightarrow>
     map_of (fst (Mapping_impl lib now children value result error)) k = map_of result k"
proof (induction children arbitrary: "value" result error)
  case Nil
  then show ?case by simp
next
  case (Cons subnode rest)
  let ?c = "case map_of value (name subnode) of Some v \<Rightarrow> CVal v | None \<Rightarrow> CNull"
  have k: "k \<notin> name ` set rest" "k \<noteq> name subnode" using Cons.prems by auto
  show ?case
  proof (cases "node_deserialize lib now subnode ?c")
    case (Inl msg)
    then show ?thesis using Cons.IH [OF k(1)] by (simp add: Let_def)
  next
    case (Inr a)
    then show ?thesis using Cons.IH [OF k(1)] k(2)
      by (cases a) (simp_all add: Let_def update_conv')
  qed
qed

lemma Mapping_impl_result_lookup:
  assumes "distinct (map name children)" and "nd \<in> set children"
    and "node_deserialize lib now nd
           (case map_of value (name nd) of Some v \<Rightarrow> CVal v | None \<Rightarrow> CNull) = Inr (AVal x)"
  shows "map_of (fst (Mapping_impl lib now children value result error)) (name nd) = Some x"
  using assms
proof (induction children arbitrary: "value" result error)
  case Nil
  then show ?case by simp
next
  case (Cons subnode rest)
  let ?c = "case map_of value (name subnode) of Some v \<Rightarrow> CVal v | None \<Rightarrow> CNull"
  let ?value' = "AList.delete (name subnode) value"
  have d: "distinct (map name rest)" and nin: "name subnode \<notin> name ` set rest"
    using Cons.prems(1) by auto
  show ?case
  proof (cases "nd = subnode")
    case True
    then have "Mapping_impl lib now (subnode # rest) value result error
                 = Mapping_impl lib now rest ?value' (AList.update (name subnode) x result) error"
      using Cons.prems(3) by (simp add: Let_def)
    then show ?thesis
      using Mapping_impl_result_other [OF nin, of lib now ?value' "AList.update (name subnode) x result" error]
        True
      by (simp add: update_conv')
  next
    case False
    then have mem: "nd \<in> set rest" using Cons.prems(2) by simp
    then have "name nd \<in> name ` set rest" by (rule imageI)
    then have neq: "name nd \<noteq> name subnode" using nin by metis
    then have "map_of ?value' (name nd) = map_of value (name nd)"
      by (simp add: delete_conv')
    then have des: "node_deserialize lib now nd
           (case map_of ?value' (name nd) of Some v \<Rightarrow> CVal v | None \<Rightarrow> CNull) = Inr (AVal x)"
      using Cons.prems(3) by simp
    have ih: "\<And>res err. map_of (fst (Mapping_impl lib now rest ?value' res err)) (name nd) = Some x"
      using Cons.IH [OF d mem des] .
    show ?thesis
    proof (cases "node_deserialize lib now subnode ?c")
      case (Inl msg)
      then show ?thesis using ih by (simp add: Let_def)
    next
      case (Inr a)
      then show ?thesis using ih by (cases a) (simp_all add: Let_def)
    qed
  qed
qed

lemma last_modified_node_given:
  "node_deserialize lib now last_modified_node (CVal (PInt n)) = Inr (AVal (PInt n))"
  by (simp add: node_deserialize_def TimeStamp_deserialize_def SchemaNode_deserialize_int
      last_modified_node_def)

lemma last_modified_node_absent:
  "node_deserialize lib now last_modified_node CNull = Inr (AVal (PInt now))"
  by (simp add: node_deserialize_def TimeStamp_deserialize_def SchemaNode_deserialize_int
      last_modified_node_def)

lemma validate_last_modified:
  assumes "inherits_RessourceSchema mapping"
    and "validate lib mapping now (PDict d) = Inr v"
  shows "map_of v modified_field =
           (case map_of d modified_field of
              None \<Rightarrow> Some (PInt now)
            | Some (PInt n) \<Rightarrow> Some (PInt n)
            | Some x \<Rightarrow> map_of v modified_field)"
proof -
  from validate_Inr [OF assms(2)] have m: "fst (Mapping_impl lib now mapping d [] []) = v"
    by auto
  have dist: "distinct (map name mapping)" and mem: "last_modified_node \<in> set mapping"
    using assms(1) by (simp_all add: inherits_RessourceSchema_def known_fields_def)
  have nm: "name last_modified_node = modified_field"
    by (simp add: last_modified_node_def modified_field_def)
  show ?thesis
  proof (cases "map_of d modified_field")
    case None
    then have "node_deserialize lib now last_modified_node
           (case map_of d (name last_modified_node) of Some v \<Rightarrow> CVal v | None \<Rightarrow> CNull)
           = Inr (AVal (PInt now))"
      by (simp add: nm last_modified_node_absent)
    from Mapping_impl_result_lookup [OF dist mem this, of "[]" "[]"] m None nm
    show ?thesis by simp
  next
    case (Some x)
    show ?thesis
    proof (cases x)
      case (PInt n)
      then have "node_deserialize lib now last_modified_node
           (case map_of d (name last_modified_node) of Some v \<Rightarrow> CVal v | None \<Rightarrow> CNull)
           = Inr (AVal (PInt n))"
        using Some by (simp add: nm last_modified_node_given)
      from Mapping_impl_result_lookup [OF dist mem this, of "[]" "[]"] m Some PInt nm
      show ?thesis by simp
    qed (use Some in simp_all)
  qed
qed

lemma dict_update_lookup:
  "map_of (dict_update d modified) k =
     (case map_of (rev modified) k of Some v \<Rightarrow> Some v | None \<Rightarrow> map_of d k)"
  unfolding dict_update_def
proof (induction modified arbitrary: d)
  case Nil
  then show ?case by simp
next
  case (Cons kv modified)
  obtain k' v' where kv: "kv = (k', v')" by (cases kv)
  show ?case
    using Cons.IH [of "AList.update k' v' d"] kv
    by (auto simp: update_conv' map_add_def split: option.splits)
qed

lemma validates_or_400_Some:
  assumes "validates_or_400 view self = (Inr (Some b), self')"
  shows "view self = (Inr (Some b), self')"
proof -
  obtain res st where v: "view self = (res, st)" by (cases "view self")
  show ?thesis
  proof (cases res)
    case (Inl e)
    then show ?thesis using assms v by (cases e) (simp_all add: validates_or_400_def)
  next
    case (Inr a)
    then show ?thesis using assms v by (simp add: validates_or_400_def)
  qed
qed

lemma exists_or_404_Some:
  assumes "exists_or_404 view self = (Inr (Some b), self')"
  shows "view self = (Inr (Some b), self')"
proof -
  obtain res st where v: "view self = (res, st)" by (cases "view self")
  show ?thesis
  proof (cases res)
    case (Inl e)
    then show ?thesis using assms v by (cases e) (simp_all add: exists_or_404_def)
  next
    case (Inr a)
    then show ?thesis using assms v by (simp add: exists_or_404_def)
  qed
qed

lemma collection_post_view_Some:
  assumes "collection_post_view lib mapping be now self = (Inr (Some b), self')"
  shows "\<exists>new v r d. deserialize lib (body self) = Inr new \<and> validate lib mapping now new = Inr v
           \<and> db_create be v (db_state self) = (Inr r, d) \<and> b = PDict r
           \<and> self' = self\<lparr>db_state := d, self_record := Some r\<rparr>"
  using assms unfolding collection_post_view_def
  by (auto split: sum.splits prod.splits)

lemma put_view_Some:
  assumes "put_view lib mapping be now self = (Inr (Some b), self')"
  shows "\<exists>record_id new v r d. matchdict_id self = Inr record_id
           \<and> deserialize lib (body self) = Inr new \<and> validate lib mapping now new = Inr v
           \<and> db_update be record_id v (db_state self) = (Inr r, d) \<and> b = PDict r
           \<and> self' = self\<lparr>db_state := d, self_record := Some r\<rparr>"
  using assms unfolding put_view_def
  by (auto split: sum.splits prod.splits)

lemma patch_view_Some:
  assumes "patch_view lib mapping be now self = (Inr (Some b), self')"
  shows "\<exists>record_id r d modified v rec d'. matchdict_id self = Inr record_id
           \<and> db_get be record_id (db_state self) = (Inr r, d)
           \<and> deserialize lib (body self) = Inr (PDict modified)
           \<and> validate lib mapping now
                (PDict (AList.update modified_field (PInt now) (dict_update r modified))) = Inr v
           \<and> db_update be record_id v d = (Inr rec, d') \<and> b = PDict rec
           \<and> self' = self\<lparr>db_state := d', self_record := Some r\<rparr>"
  using assms unfolding patch_view_def
  by (auto simp: Let_def split: sum.splits prod.splits pyval.splits)

lemma field_names_differ: "id_field \<noteq> modified_field"
  by (simp add: id_field_def modified_field_def)

lemma mem_backend_simps:
  "db_create (mem_backend g) = mem_create g"
  "db_update (mem_backend g) = mem_update"
  "db_get (mem_backend g) = mem_get"
  by (simp_all add: mem_backend_def)

lemma validate_absent_now:
  assumes "inherits_RessourceSchema mapping"
    and "validate lib mapping now (PDict m) = Inr v" and "map_of m modified_field = None"
  shows "map_of v modified_field = Some (PInt now)"
  using validate_last_modified [OF assms(1,2)] assms(3) by simp

lemma validate_forced_now:
  assumes "inherits_RessourceSchema mapping"
    and "validate lib mapping now (PDict (AList.update modified_field (PInt now) u)) = Inr v"
  shows "map_of v modified_field = Some (PInt now)"
  using validate_last_modified [OF assms] by (simp add: update_conv')

lemma base_schema_inherits: "inherits_RessourceSchema RessourceSchema"
  by (simp add: inherits_RessourceSchema_def known_fields_def RessourceSchema_def
      last_modified_node_def)

lemma validate_only_Invalid:
  assumes "validate lib mapping now cstruct = Inl e"
  shows "\<exists>es. e = Invalid es"
  using validate_Inl [OF assms] by blast

text \<open>
  Claim C5, as the code has it. When the record exists and the body is a JSON object, patch
  merges the body onto the existing record, key by key, and then sets \<open>last_modified\<close> to
  the clock reading, whatever the body said. The merged record is validated: on failure the
  answer is the 400 response and \<open>update\<close> is not called (the store is the one \<open>get\<close>
  left); on success the validated record carries \<open>last_modified = now\<close> and is what
  \<open>update\<close> receives, and the record \<open>update\<close> returns is the result.
\<close>

theorem patch_merges_stamps_validates_persists:
  assumes rid: "matchdict_id self = Inr record_id"
    and got: "db_get be record_id (db_state self) = (Inr r, d)"
    and parsed: "deserialize lib (body self) = Inr (PDict modified)"
    and schema: "inherits_RessourceSchema mapping"
    and merged: "merged = AList.update modified_field (PInt now) (dict_update r modified)"
  shows "(\<forall>k. map_of merged k =
              (if k = modified_field then Some (PInt now)
               else case map_of (rev modified) k of Some v \<Rightarrow> Some v | None \<Rightarrow> map_of r k))
       \<and> (case validate lib mapping now (PDict merged) of
             Inl e \<Rightarrow>
               (\<exists>es. e = Invalid es
                  \<and> patch lib mapping be now self =
                      (Inr None,
                       self\<lparr>db_state := d, self_record := Some r,
                            errors := errors self @ map (\<lambda>(field, error). (''body'', field, error)) es,
                            errors_status := ''400 Bad Request''\<rparr>))
           | Inr v \<Rightarrow>
               map_of v modified_field = Some (PInt now)
               \<and> (\<forall>rec d'. db_update be record_id v d = (Inr rec, d') \<longrightarrow>
                     patch lib mapping be now self =
                       (Inr (Some (PDict rec)), self\<lparr>db_state := d', self_record := Some r\<rparr>)))"
proof (intro conjI allI)
  fix k
  show "map_of merged k =
          (if k = modified_field then Some (PInt now)
           else case map_of (rev modified) k of Some v \<Rightarrow> Some v | None \<Rightarrow> map_of r k)"
    by (simp add: merged update_conv' dict_update_lookup)
next
  have body1: "deserialize lib (body (self\<lparr>db_state := d, self_record := Some r\<rparr>))
                 = Inr (PDict modified)"
    using parsed by simp
  show "case validate lib mapping now (PDict merged) of
             Inl e \<Rightarrow>
               (\<exists>es. e = Invalid es
                  \<and> patch lib mapping be now self =
                      (Inr None,
                       self\<lparr>db_state := d, self_record := Some r,
                            errors := errors self @ map (\<lambda>(field, error). (''body'', field, error)) es,
                            errors_status := ''400 Bad Request''\<rparr>))
           | Inr v \<Rightarrow>
               map_of v modified_field = Some (PInt now)
               \<and> (\<forall>rec d'. db_update be record_id v d = (Inr rec, d') \<longrightarrow>
                     patch lib mapping be now self =
                       (Inr (Some (PDict rec)), self\<lparr>db_state := d', self_record := Some r\<rparr>))"
  proof (cases "validate lib mapping now (PDict merged)")
    case (Inl e)
    from validate_only_Invalid [OF Inl] obtain es where es: "e = Invalid es" by blast
    have "patch_view lib mapping be now self
            = (Inl (Invalid es), self\<lparr>db_state := d, self_record := Some r\<rparr>)"
      using rid got body1 Inl es merged by (simp add: patch_view_def Let_def)
    then have "patch lib mapping be now self =
                 (Inr None,
                  self\<lparr>db_state := d, self_record := Some r,
                       errors := errors self @ map (\<lambda>(field, error). (''body'', field, error)) es,
                       errors_status := ''400 Bad Request''\<rparr>)"
      by (simp add: patch_def exists_or_404_def validates_or_400_def)
    then show ?thesis using Inl es by simp
  next
    case (Inr v)
    have lm: "map_of v modified_field = Some (PInt now)"
      using validate_forced_now [OF schema] Inr merged by simp
    have "patch lib mapping be now self =
            (Inr (Some (PDict rec)), self\<lparr>db_state := d', self_record := Some r\<rparr>)"
      if "db_update be record_id v d = (Inr rec, d')" for rec d'
    proof -
      have "patch_view lib mapping be now self
              = (Inr (Some (PDict rec)), self\<lparr>db_state := d', self_record := Some r\<rparr>)"
        using rid got body1 Inr merged that by (simp add: patch_view_def Let_def)
      then show ?thesis
        by (simp add: patch_def exists_or_404_def validates_or_400_def)
    qed
    then show ?thesis using Inr lm by simp
  qed
qed

lemma patch_witness_run:
  \<open>patch lib0 RessourceSchema (mem_backend id_generator0) 2000
     (request_a\<lparr>body := ''{"last_modified": 5}''\<rparr>)
   = (Inr (Some (PDict [(''_id'', PStr ''a''), (''last_modified'', PInt 2000)])),
      request_a\<lparr>body := ''{"last_modified": 5}'',
                db_state := [(''a'', [(''_id'', PStr ''a''), (''last_modified'', PInt 2000)])],
                self_record := Some [(''_id'', PStr ''a''), (''last_modified'', PInt 1000)]\<rparr>)\<close>
  by code_simp

lemma request_a_facts:
  \<open>matchdict_id (request_a\<lparr>body := ''{"last_modified": 5}''\<rparr>) = Inr ''a''\<close>
  \<open>db_get (mem_backend id_generator0) ''a'' (db_state (request_a\<lparr>body := ''{"last_modified": 5}''\<rparr>))
     = (Inr [(''_id'', PStr ''a''), (''last_modified'', PInt 1000)], store_a)\<close>
  \<open>deserialize lib0 (body (request_a\<lparr>body := ''{"last_modified": 5}''\<rparr>))
     = Inr (PDict [(''last_modified'', PInt 5)])\<close>
  \<open>[(''_id'', PStr ''a''), (''last_modified'', PInt 2000)]
     = AList.update modified_field (PInt 2000)
         (dict_update [(''_id'', PStr ''a''), (''last_modified'', PInt 1000)] [(''last_modified'', PInt 5)])\<close>
  \<open>validate lib0 RessourceSchema 2000 (PDict [(''_id'', PStr ''a''), (''last_modified'', PInt 2000)])
     = Inr [(''_id'', PStr ''a''), (''last_modified'', PInt 2000)]\<close>
  by code_simp+

theorem patch_merges_stamps_validates_persists_witness:
  \<open>matchdict_id (request_a\<lparr>body := ''{"last_modified": 5}''\<rparr>) = Inr ''a''
   \<and> db_get (mem_backend id_generator0) ''a'' (db_state (request_a\<lparr>body := ''{"last_modified": 5}''\<rparr>))
       = (Inr [(''_id'', PStr ''a''), (''last_modified'', PInt 1000)], store_a)
   \<and> deserialize lib0 (body (request_a\<lparr>body := ''{"last_modified": 5}''\<rparr>))
       = Inr (PDict [(''last_modified'', PInt 5)])
   \<and> inherits_RessourceSchema RessourceSchema
   \<and> [(''_id'', PStr ''a''), (''last_modified'', PInt 2000)]
       = AList.update modified_field (PInt 2000)
           (dict_update [(''_id'', PStr ''a''), (''last_modified'', PInt 1000)] [(''last_modified'', PInt 5)])
   \<and> validate lib0 RessourceSchema 2000 (PDict [(''_id'', PStr ''a''), (''last_modified'', PInt 2000)])
       = Inr [(''_id'', PStr ''a''), (''last_modified'', PInt 2000)]
   \<and> map_of [(''_id'', PStr ''a''), (''last_modified'', PInt 2000)] modified_field = Some (PInt 2000)
   \<and> patch lib0 RessourceSchema (mem_backend id_generator0) 2000
         (request_a\<lparr>body := ''{"last_modified": 5}''\<rparr>)
       = (Inr (Some (PDict [(''_id'', PStr ''a''), (''last_modified'', PInt 2000)])),
          request_a\<lparr>body := ''{"last_modified": 5}'',
                    db_state := [(''a'', [(''_id'', PStr ''a''), (''last_modified'', PInt 2000)])],
                    self_record := Some [(''_id'', PStr ''a''), (''last_modified'', PInt 1000)]\<rparr>)\<close>
  using patch_merges_stamps_validates_persists
          [OF request_a_facts(1) request_a_facts(2) request_a_facts(3) base_schema_inherits
              request_a_facts(4)]
        request_a_facts base_schema_inherits patch_witness_run
  by (simp add: modified_field_def)

text \<open>
  Claim C5 as stated fails in its last part: a patch in the very second the record was last
  stamped succeeds and leaves \<open>last_modified\<close> equal to the value before the patch.
\<close>

theorem patch_same_second_counterexample:
  "fst (patch lib0 RessourceSchema (mem_backend id_generator0) 1000 request_a)
     = Inr (Some (PDict [(''_id'', PStr ''a''), (''last_modified'', PInt 1000)]))
   \<and> stored_last_modified (db_state request_a) ''a'' = Some (PInt 1000)
   \<and> stored_last_modified
        (db_state (snd (patch lib0 RessourceSchema (mem_backend id_generator0) 1000 request_a))) ''a''
       = Some (PInt 1000)"
  by code_simp

lemma validates_or_400_db_state:
  "db_state (snd (validates_or_400 view self)) = db_state (snd (view self))"
proof -
  obtain res st where v: "view self = (res, st)" by (cases "view self")
  show ?thesis
  proof (cases res)
    case (Inl e)
    then show ?thesis using v by (cases e) (simp_all add: validates_or_400_def)
  next
    case (Inr a)
    then show ?thesis using v by (simp add: validates_or_400_def)
  qed
qed

lemma exists_or_404_db_state:
  "db_state (snd (exists_or_404 view self)) = db_state (snd (view self))"
proof -
  obtain res st where v: "view self = (res, st)" by (cases "view self")
  show ?thesis
  proof (cases res)
    case (Inl e)
    then show ?thesis using v by (cases e) (simp_all add: exists_or_404_def)
  next
    case (Inr a)
    then show ?thesis using v by (simp add: exists_or_404_def)
  qed
qed

lemma validates_or_400_Inr: "fst (view self) = Inr x \<Longrightarrow> validates_or_400 view self = view self"
  by (cases "view self") (simp add: validates_or_400_def)

lemma exists_or_404_Inr: "fst (view self) = Inr x \<Longrightarrow> exists_or_404 view self = view self"
  by (cases "view self") (simp add: exists_or_404_def)

lemma validates_or_400_Some_iff:
  "fst (validates_or_400 view self) = Inr (Some b) \<longleftrightarrow> fst (view self) = Inr (Some b)"
proof
  assume "fst (validates_or_400 view self) = Inr (Some b)"
  then have "validates_or_400 view self = (Inr (Some b), snd (validates_or_400 view self))"
    by (simp add: prod_eq_iff)
  from validates_or_400_Some [OF this] show "fst (view self) = Inr (Some b)" by simp
next
  assume "fst (view self) = Inr (Some b)"
  then show "fst (validates_or_400 view self) = Inr (Some b)"
    by (simp add: validates_or_400_Inr)
qed

lemma exists_or_404_Some_iff:
  "fst (exists_or_404 view self) = Inr (Some b) \<longleftrightarrow> fst (view self) = Inr (Some b)"
proof
  assume "fst (exists_or_404 view self) = Inr (Some b)"
  then have "exists_or_404 view self = (Inr (Some b), snd (exists_or_404 view self))"
    by (simp add: prod_eq_iff)
  from exists_or_404_Some [OF this] show "fst (view self) = Inr (Some b)" by simp
next
  assume "fst (view self) = Inr (Some b)"
  then show "fst (exists_or_404 view self) = Inr (Some b)"
    by (simp add: exists_or_404_Inr)
qed

lemma mem_create_result:
  "\<exists>k rec. mem_create g v d = (Inr rec, AList.update k rec d)
     \<and> map_of rec id_field = Some (PStr k)
     \<and> map_of rec modified_field = map_of v modified_field"
proof -
  let ?r = "AList.update id_field (PStr (g d)) v"
  have fresh: "map_of ?r modified_field = map_of v modified_field"
    "map_of ?r id_field = Some (PStr (g d))"
    using field_names_differ by (simp_all add: update_conv')
  have gen: ?thesis if "mem_create g v d = (Inr ?r, AList.update (g d) ?r d)"
    using that fresh by blast
  show ?thesis
  proof (cases "map_of v id_field")
    case None
    then show ?thesis using gen by (simp add: mem_create_def Let_def)
  next
    case (Some x)
    show ?thesis
    proof (cases x)
      case (PStr s)
      then have "mem_create g v d = (Inr v, AList.update s v d)"
        using Some by (simp add: mem_create_def)
      then show ?thesis using Some PStr by blast
    qed (use Some gen in \<open>simp_all add: mem_create_def Let_def\<close>)
  qed
qed

text \<open>A view that does not answer a record leaves the store as it was.\<close>

lemma collection_post_view_store:
  assumes "collection_post_view lib mapping (mem_backend g) now self = (res, st)"
    and "\<And>b. res \<noteq> Inr (Some b)"
  shows "db_state st = db_state self"
proof (cases "deserialize lib (body self)")
  case (Inl e)
  then show ?thesis using assms(1) by (auto simp: collection_post_view_def)
next
  case (Inr new)
  show ?thesis
  proof (cases "validate lib mapping now new")
    case (Inl e)
    then show ?thesis using assms(1) Inr by (auto simp: collection_post_view_def)
  next
    case v: (Inr v)
    from mem_create_result [of g v "db_state self"] obtain k rec where
      "mem_create g v (db_state self) = (Inr rec, AList.update k rec (db_state self))" by blast
    then have "res = Inr (Some (PDict rec))"
      using assms(1) Inr v by (auto simp: collection_post_view_def mem_backend_simps)
    then show ?thesis using assms(2) by simp
  qed
qed

lemma put_view_store:
  assumes "put_view lib mapping (mem_backend g) now self = (res, st)"
    and "\<And>b. res \<noteq> Inr (Some b)"
  shows "db_state st = db_state self"
proof (cases "matchdict_id self")
  case (Inl e)
  then show ?thesis using assms(1) by (auto simp: put_view_def)
next
  case rid: (Inr record_id)
  show ?thesis
  proof (cases "deserialize lib (body self)")
    case (Inl e)
    then show ?thesis using assms(1) rid by (auto simp: put_view_def)
  next
    case (Inr new)
    show ?thesis
    proof (cases "validate lib mapping now new")
      case (Inl e)
      then show ?thesis using assms(1) rid Inr by (auto simp: put_view_def)
    next
      case v: (Inr v)
      then have "res = Inr (Some (PDict v))"
        using assms(1) rid Inr by (auto simp: put_view_def mem_backend_simps mem_update_def)
      then show ?thesis using assms(2) by simp
    qed
  qed
qed

lemma patch_view_store:
  assumes "patch_view lib mapping (mem_backend g) now self = (res, st)"
    and "\<And>b. res \<noteq> Inr (Some b)"
  shows "db_state st = db_state self"
proof (cases "matchdict_id self")
  case (Inl e)
  then show ?thesis using assms(1) by (auto simp: patch_view_def)
next
  case rid: (Inr record_id)
  show ?thesis
  proof (cases "map_of (db_state self) record_id")
    case None
    then show ?thesis
      using assms(1) rid by (auto simp: patch_view_def mem_backend_simps mem_get_def)
  next
    case (Some r)
    then have got: "db_get (mem_backend g) record_id (db_state self) = (Inr r, db_state self)"
      by (simp add: mem_backend_simps mem_get_def)
    let ?self1 = "self\<lparr>db_state := db_state self, self_record := Some r\<rparr>"
    show ?thesis
    proof (cases "deserialize lib (body self)")
      case (Inl e)
      then show ?thesis using assms(1) rid got by (auto simp: patch_view_def Let_def)
    next
      case (Inr new)
      show ?thesis
      proof (cases new)
        case (PDict modified)
        let ?u = "AList.update modified_field (PInt now) (dict_update r modified)"
        show ?thesis
        proof (cases "validate lib mapping now (PDict ?u)")
          case (Inl e)
          then show ?thesis
            using assms(1) rid got Inr PDict by (auto simp: patch_view_def Let_def)
        next
          case v: (Inr v)
          then have "res = Inr (Some (PDict v))"
            using assms(1) rid got Inr PDict
            by (auto simp: patch_view_def Let_def mem_backend_simps mem_update_def)
          then show ?thesis using assms(2) by simp
        qed
      qed (use assms(1) rid got Inr in \<open>auto simp: patch_view_def Let_def\<close>)
    qed
  qed
qed

lemma request_of_simps:
  "db_state (request_of w d) = d"
  "body (request_of w d) = raw_body w"
  "verb w \<noteq> Create \<Longrightarrow> matchdict_id (request_of w d) = Inr (url_id w)"
  by (cases "verb w"; simp add: request_of_def matchdict_id_def)+

text \<open>
  What a writing request does to the store: nothing, or it answers a record and stores
  that record under the id of the URL (for a create, under the id the record carries).
\<close>

lemma apply_write_effect:
  "(apply_write lib mapping g w d = d \<and> (\<forall>b. answer_of lib mapping g w d \<noteq> Inr (Some b)))
   \<or> (\<exists>k rec. apply_write lib mapping g w d = AList.update k rec d
         \<and> answer_of lib mapping g w d = Inr (Some (PDict rec))
         \<and> (verb w \<noteq> Create \<longrightarrow> k = url_id w)
         \<and> (verb w = Create \<longrightarrow> map_of rec id_field = Some (PStr k)))"
proof (cases "verb w")
  case Create
  let ?V = "collection_post_view lib mapping (mem_backend g) (clock w)"
  let ?self = "request_of w d"
  have run: "run_write lib mapping (mem_backend g) (clock w) (verb w) ?self = validates_or_400 ?V ?self"
    using Create by (simp add: run_write_def collection_post_def)
  obtain res st where v: "?V ?self = (res, st)" by (cases "?V ?self")
  show ?thesis
  proof (cases "\<exists>b. res = Inr (Some b)")
    case True
    then obtain b where b: "res = Inr (Some b)" by blast
    from collection_post_view_Some [of lib mapping "mem_backend g" "clock w" ?self b st] v b
    obtain v' r d' where
      s: "db_create (mem_backend g) v' (db_state ?self) = (Inr r, d')" "b = PDict r"
         "st = ?self\<lparr>db_state := d', self_record := Some r\<rparr>"
      by auto
    from mem_create_result [of g v' d] obtain k rec where
      m: "mem_create g v' d = (Inr rec, AList.update k rec d)"
         "map_of rec id_field = Some (PStr k)" by blast
    have eq: "r = rec" "d' = AList.update k rec d"
      using s(1) m(1) by (auto simp: mem_backend_simps request_of_simps)
    have same: "validates_or_400 ?V ?self = ?V ?self"
      using v b by (simp add: validates_or_400_Inr)
    have "apply_write lib mapping g w d = AList.update k rec d"
      using run same v s(3) eq by (simp add: apply_write_def)
    moreover have "answer_of lib mapping g w d = Inr (Some (PDict rec))"
      using run same v b s(2) eq by (simp add: answer_of_def)
    ultimately show ?thesis using Create m(2) by blast
  next
    case False
    then have "db_state st = db_state ?self"
      using collection_post_view_store [OF v] by blast
    then have "apply_write lib mapping g w d = d"
      using run v validates_or_400_db_state [of ?V ?self]
      by (simp add: apply_write_def request_of_simps)
    moreover have "\<forall>b. answer_of lib mapping g w d \<noteq> Inr (Some b)"
      using False run v by (simp add: answer_of_def validates_or_400_Some_iff)
    ultimately show ?thesis by simp
  qed
next
  case Put
  let ?V = "put_view lib mapping (mem_backend g) (clock w)"
  let ?self = "request_of w d"
  have run: "run_write lib mapping (mem_backend g) (clock w) (verb w) ?self
               = exists_or_404 (validates_or_400 ?V) ?self"
    using Put by (simp add: run_write_def put_def)
  have rid: "matchdict_id ?self = Inr (url_id w)" using Put by (simp add: request_of_simps)
  obtain res st where v: "?V ?self = (res, st)" by (cases "?V ?self")
  show ?thesis
  proof (cases "\<exists>b. res = Inr (Some b)")
    case True
    then obtain b where b: "res = Inr (Some b)" by blast
    from put_view_Some [of lib mapping "mem_backend g" "clock w" ?self b st] v b rid
    obtain v' r d' where
      s: "db_update (mem_backend g) (url_id w) v' (db_state ?self) = (Inr r, d')" "b = PDict r"
         "st = ?self\<lparr>db_state := d', self_record := Some r\<rparr>"
      by auto
    have eq: "r = v'" "d' = AList.update (url_id w) v' d"
      using s(1) by (auto simp: mem_backend_simps mem_update_def request_of_simps)
    have same: "exists_or_404 (validates_or_400 ?V) ?self = ?V ?self"
      using v b by (simp add: validates_or_400_Inr exists_or_404_Inr)
    have "apply_write lib mapping g w d = AList.update (url_id w) v' d"
      using run same v s(3) eq by (simp add: apply_write_def)
    moreover have "answer_of lib mapping g w d = Inr (Some (PDict v'))"
      using run same v b s(2) eq by (simp add: answer_of_def)
    ultimately show ?thesis using Put by auto
  next
    case False
    then have "db_state st = db_state ?self"
      using put_view_store [OF v] by blast
    then have "apply_write lib mapping g w d = d"
      using run v validates_or_400_db_state [of ?V ?self]
        exists_or_404_db_state [of "validates_or_400 ?V" ?self]
      by (simp add: apply_write_def request_of_simps)
    moreover have "\<forall>b. answer_of lib mapping g w d \<noteq> Inr (Some b)"
      using False run v
      by (simp add: answer_of_def validates_or_400_Some_iff exists_or_404_Some_iff)
    ultimately show ?thesis by simp
  qed
next
  case Patch
  let ?V = "patch_view lib mapping (mem_backend g) (clock w)"
  let ?self = "request_of w d"
  have run: "run_write lib mapping (mem_backend g) (clock w) (verb w) ?self
               = exists_or_404 (validates_or_400 ?V) ?self"
    using Patch by (simp add: run_write_def patch_def)
  have rid: "matchdict_id ?self = Inr (url_id w)" using Patch by (simp add: request_of_simps)
  obtain res st where v: "?V ?self = (res, st)" by (cases "?V ?self")
  show ?thesis
  proof (cases "\<exists>b. res = Inr (Some b)")
    case True
    then obtain b where b: "res = Inr (Some b)" by blast
    from patch_view_Some [of lib mapping "mem_backend g" "clock w" ?self b st] v b rid
    obtain r0 d0 v' r d' where
      s: "db_get (mem_backend g) (url_id w) (db_state ?self) = (Inr r0, d0)"
         "db_update (mem_backend g) (url_id w) v' d0 = (Inr r, d')" "b = PDict r"
         "st = ?self\<lparr>db_state := d', self_record := Some r0\<rparr>"
      by auto
    have d0: "d0 = d"
      using s(1) by (auto simp: mem_backend_simps mem_get_def request_of_simps split: option.splits)
    have eq: "r = v'" "d' = AList.update (url_id w) v' d"
      using s(2) d0 by (auto simp: mem_backend_simps mem_update_def)
    have same: "exists_or_404 (validates_or_400 ?V) ?self = ?V ?self"
      using v b by (simp add: validates_or_400_Inr exists_or_404_Inr)
    have "apply_write lib mapping g w d = AList.update (url_id w) v' d"
      using run same v s(4) eq by (simp add: apply_write_def)
    moreover have "answer_of lib mapping g w d = Inr (Some (PDict v'))"
      using run same v b s(3) eq by (simp add: answer_of_def)
    ultimately show ?thesis using Patch by auto
  next
    case False
    then have "db_state st = db_state ?self"
      using patch_view_store [OF v] by blast
    then have "apply_write lib mapping g w d = d"
      using run v validates_or_400_db_state [of ?V ?self]
        exists_or_404_db_state [of "validates_or_400 ?V" ?self]
      by (simp add: apply_write_def request_of_simps)
    moreover have "\<forall>b. answer_of lib mapping g w d \<noteq> Inr (Some b)"
      using False run v
      by (simp add: answer_of_def validates_or_400_Some_iff exists_or_404_Some_iff)
    ultimately show ?thesis by simp
  qed
qed

lemma not_supplied_absent:
  assumes "\<not> supplies_last_modified lib w" and "deserialize lib (raw_body w) = Inr (PDict m)"
  shows "map_of m modified_field = None"
  using assms by (simp add: supplies_last_modified_def)

lemma successful_write_last_modified:
  assumes schema: "inherits_RessourceSchema mapping"
    and stamped: "verb w = Patch \<or> \<not> supplies_last_modified lib w"
    and ok: "answer_of lib mapping g w d = Inr (Some (PDict rec))"
  shows "map_of rec modified_field = Some (PInt (clock w))"
proof (cases "verb w")
  case Create
  let ?V = "collection_post_view lib mapping (mem_backend g) (clock w)"
  have "fst (validates_or_400 ?V (request_of w d)) = Inr (Some (PDict rec))"
    using ok Create by (simp add: answer_of_def run_write_def collection_post_def)
  then have "fst (?V (request_of w d)) = Inr (Some (PDict rec))"
    by (simp add: validates_or_400_Some_iff)
  then have "?V (request_of w d) = (Inr (Some (PDict rec)), snd (?V (request_of w d)))"
    by (simp add: prod_eq_iff)
  from collection_post_view_Some [OF this] obtain new v r d' where
    s: "deserialize lib (raw_body w) = Inr new" "validate lib mapping (clock w) new = Inr v"
       "mem_create g v d = (Inr r, d')" "rec = r"
    by (auto simp: request_of_simps mem_backend_simps)
  from validate_Inr [OF s(2)] obtain m where m: "new = PDict m" by blast
  have "map_of m modified_field = None"
    using stamped Create not_supplied_absent s(1) m by auto
  then have "map_of v modified_field = Some (PInt (clock w))"
    using validate_absent_now [OF schema] s(2) m by simp
  moreover have "map_of r modified_field = map_of v modified_field"
    using mem_create_result [of g v d] s(3) by auto
  ultimately show ?thesis using s(4) by simp
next
  case Put
  let ?V = "put_view lib mapping (mem_backend g) (clock w)"
  have "fst (exists_or_404 (validates_or_400 ?V) (request_of w d)) = Inr (Some (PDict rec))"
    using ok Put by (simp add: answer_of_def run_write_def put_def)
  then have "fst (?V (request_of w d)) = Inr (Some (PDict rec))"
    by (simp add: validates_or_400_Some_iff exists_or_404_Some_iff)
  then have "?V (request_of w d) = (Inr (Some (PDict rec)), snd (?V (request_of w d)))"
    by (simp add: prod_eq_iff)
  from put_view_Some [OF this] obtain record_id new v r d' where
    s: "deserialize lib (raw_body w) = Inr new" "validate lib mapping (clock w) new = Inr v"
       "mem_update record_id v d = (Inr r, d')" "rec = r"
    by (auto simp: request_of_simps mem_backend_simps)
  from validate_Inr [OF s(2)] obtain m where m: "new = PDict m" by blast
  have "map_of m modified_field = None"
    using stamped Put not_supplied_absent s(1) m by auto
  then have "map_of v modified_field = Some (PInt (clock w))"
    using validate_absent_now [OF schema] s(2) m by simp
  moreover have "r = v" using s(3) by (auto simp: mem_update_def)
  ultimately show ?thesis using s(4) by simp
next
  case Patch
  let ?V = "patch_view lib mapping (mem_backend g) (clock w)"
  have "fst (exists_or_404 (validates_or_400 ?V) (request_of w d)) = Inr (Some (PDict rec))"
    using ok Patch by (simp add: answer_of_def run_write_def patch_def)
  then have "fst (?V (request_of w d)) = Inr (Some (PDict rec))"
    by (simp add: validates_or_400_Some_iff exists_or_404_Some_iff)
  then have "?V (request_of w d) = (Inr (Some (PDict rec)), snd (?V (request_of w d)))"
    by (simp add: prod_eq_iff)
  from patch_view_Some [OF this] obtain record_id r0 d0 modified v r d' where
    s: "validate lib mapping (clock w)
          (PDict (AList.update modified_field (PInt (clock w)) (dict_update r0 modified))) = Inr v"
       "mem_update record_id v d0 = (Inr r, d')" "rec = r"
    by (auto simp: mem_backend_simps)
  have "map_of v modified_field = Some (PInt (clock w))"
    using validate_forced_now [OF schema s(1)] .
  moreover have "r = v" using s(2) by (auto simp: mem_update_def)
  ultimately show ?thesis using s(3) by simp
qed

lemma stored_int_update:
  "stored_int (AList.update k rec d) record_id =
     (if k = record_id
      then (case map_of rec modified_field of Some (PInt n) \<Rightarrow> Some n | _ \<Rightarrow> None)
      else stored_int d record_id)"
  by (simp add: stored_int_def stored_last_modified_def update_conv')

lemma step_stored_int:
  assumes schema: "inherits_RessourceSchema mapping"
    and stamped: "verb w = Create \<or> url_id w = record_id
                    \<longrightarrow> verb w = Patch \<or> \<not> supplies_last_modified lib w"
  shows "stored_int (apply_write lib mapping g w d) record_id = stored_int d record_id
         \<or> stored_int (apply_write lib mapping g w d) record_id = Some (clock w)"
proof -
  from apply_write_effect [of lib mapping g w d]
  consider "apply_write lib mapping g w d = d"
    | k rec where "apply_write lib mapping g w d = AList.update k rec d"
        "answer_of lib mapping g w d = Inr (Some (PDict rec))"
        "verb w \<noteq> Create \<longrightarrow> k = url_id w"
    by blast
  then show ?thesis
  proof cases
    case 1
    then show ?thesis by simp
  next
    case 2
    show ?thesis
    proof (cases "k = record_id")
      case True
      then have "verb w = Create \<or> url_id w = record_id" using 2(3) by auto
      then have "verb w = Patch \<or> \<not> supplies_last_modified lib w" using stamped by blast
      from successful_write_last_modified [OF schema this 2(2)]
      show ?thesis using 2(1) True by (simp add: stored_int_update)
    next
      case False
      then show ?thesis using 2(1) by (simp add: stored_int_update)
    qed
  qed
qed

lemma last_modified_trace_sorted:
  assumes schema: "inherits_RessourceSchema mapping"
    and stamped: "\<forall>w \<in> set ws. verb w = Create \<or> url_id w = record_id
                    \<longrightarrow> verb w = Patch \<or> \<not> supplies_last_modified lib w"
    and clocks: "sorted (map clock ws)"
    and bound: "\<forall>w \<in> set ws. stored_int d record_id \<le> Some (clock w)"
  shows "sorted (stored_int d record_id # last_modified_trace lib mapping g record_id ws d)"
  using stamped clocks bound
proof (induction ws arbitrary: d)
  case Nil
  then show ?case by simp
next
  case (Cons w ws)
  let ?d' = "apply_write lib mapping g w d"
  have st: "verb w = Create \<or> url_id w = record_id
              \<longrightarrow> verb w = Patch \<or> \<not> supplies_last_modified lib w"
    using Cons.prems(1) by simp
  have first: "stored_int d record_id \<le> Some (clock w)" using Cons.prems(3) by simp
  have later: "\<forall>w' \<in> set ws. clock w \<le> clock w'" using Cons.prems(2) by simp
  from step_stored_int [OF schema st, of g d]
  have step: "stored_int ?d' record_id = stored_int d record_id
              \<or> stored_int ?d' record_id = Some (clock w)" .
  have up: "stored_int d record_id \<le> stored_int ?d' record_id"
    using step first by auto
  have bound': "\<forall>w' \<in> set ws. stored_int ?d' record_id \<le> Some (clock w')"
  proof
    fix w' assume w': "w' \<in> set ws"
    from step show "stored_int ?d' record_id \<le> Some (clock w')"
    proof
      assume "stored_int ?d' record_id = stored_int d record_id"
      then show ?thesis using Cons.prems(3) w' by simp
    next
      assume "stored_int ?d' record_id = Some (clock w)"
      then show ?thesis using later w' by simp
    qed
  qed
  have ih: "sorted (stored_int ?d' record_id # last_modified_trace lib mapping g record_id ws ?d')"
    using Cons.IH [of ?d'] Cons.prems(1,2) bound' by simp
  have "\<forall>y \<in> set (last_modified_trace lib mapping g record_id ws ?d'). stored_int ?d' record_id \<le> y"
    using ih by simp
  then have "\<forall>y \<in> set (last_modified_trace lib mapping g record_id ws ?d'). stored_int d record_id \<le> y"
    using up by (meson order_trans)
  then show ?case using ih up by (simp add: Let_def)
qed

lemma successful_write_stored:
  assumes schema: "inherits_RessourceSchema mapping"
    and stamped: "verb w = Patch \<or> \<not> supplies_last_modified lib w"
    and ok: "answer_of lib mapping g w d = Inr (Some b)"
  shows "\<exists>rec. b = PDict rec \<and> map_of rec modified_field = Some (PInt (clock w))
           \<and> (verb w \<noteq> Create \<longrightarrow> map_of (apply_write lib mapping g w d) (url_id w) = Some rec)
           \<and> (verb w = Create \<longrightarrow>
                (\<exists>k. map_of rec id_field = Some (PStr k)
                   \<and> map_of (apply_write lib mapping g w d) k = Some rec))"
proof -
  from apply_write_effect [of lib mapping g w d] ok
  obtain k rec where e: "apply_write lib mapping g w d = AList.update k rec d"
        "answer_of lib mapping g w d = Inr (Some (PDict rec))"
        "verb w \<noteq> Create \<longrightarrow> k = url_id w"
        "verb w = Create \<longrightarrow> map_of rec id_field = Some (PStr k)"
    by auto
  have b: "b = PDict rec" using ok e(2) by simp
  have lm: "map_of rec modified_field = Some (PInt (clock w))"
    using successful_write_last_modified [OF schema stamped e(2)] .
  have st: "map_of (apply_write lib mapping g w d) k = Some rec"
    using e(1) by (simp add: update_conv')
  show ?thesis using b lm st e(3,4) by auto
qed

text \<open>
  Claim C3, as the code has it, on the storage backend of the specification. Take any
  sequence of create, put and patch requests handled in turn, successful or not, and any
  record. If no create and no put on that record has a body that supplies
  \<open>last_modified\<close>, the readings of the clock do not decrease along the sequence, and the
  record's stored \<open>last_modified\<close> is not ahead of the clock at the start (as when the record
  does not exist yet), then the stored \<open>last_modified\<close> of the record never decreases from
  one request to the next. And every such request that succeeds stores, under the id it
  addresses, the record it answers, whose \<open>last_modified\<close> is the clock reading of that
  request.
\<close>

theorem last_modified_never_decreases:
  assumes "inherits_RessourceSchema mapping"
    and "\<forall>w \<in> set ws. verb w = Create \<or> url_id w = record_id
           \<longrightarrow> verb w = Patch \<or> \<not> supplies_last_modified lib w"
    and "sorted (map clock ws)"
    and "\<forall>w \<in> set ws. stored_int d record_id \<le> Some (clock w)"
  shows "sorted (stored_int d record_id # last_modified_trace lib mapping g record_id ws d)
       \<and> ((verb w' = Patch \<or> \<not> supplies_last_modified lib w')
            \<and> answer_of lib mapping g w' d' = Inr (Some b) \<longrightarrow>
          (\<exists>rec. b = PDict rec \<and> map_of rec modified_field = Some (PInt (clock w'))
             \<and> (verb w' \<noteq> Create \<longrightarrow>
                  map_of (apply_write lib mapping g w' d') (url_id w') = Some rec)
             \<and> (verb w' = Create \<longrightarrow>
                  (\<exists>k. map_of rec id_field = Some (PStr k)
                     \<and> map_of (apply_write lib mapping g w' d') k = Some rec))))"
proof (intro conjI impI)
  show "sorted (stored_int d record_id # last_modified_trace lib mapping g record_id ws d)"
    using assms by (rule last_modified_trace_sorted)
next
  assume a: "(verb w' = Patch \<or> \<not> supplies_last_modified lib w')
               \<and> answer_of lib mapping g w' d' = Inr (Some b)"
  then have "verb w' = Patch \<or> \<not> supplies_last_modified lib w'"
    and "answer_of lib mapping g w' d' = Inr (Some b)" by simp_all
  from successful_write_stored [OF assms(1) this]
  show "\<exists>rec. b = PDict rec \<and> map_of rec modified_field = Some (PInt (clock w'))
             \<and> (verb w' \<noteq> Create \<longrightarrow>
                  map_of (apply_write lib mapping g w' d') (url_id w') = Some rec)
             \<and> (verb w' = Create \<longrightarrow>
                  (\<exists>k. map_of rec id_field = Some (PStr k)
                     \<and> map_of (apply_write lib mapping g w' d') k = Some rec))" .
qed

lemma create_1000_run:
  "answer_of lib0 RessourceSchema id_generator0 create_1000 []
     = Inr (Some (PDict [(''last_modified'', PInt 1000), (''_id'', PStr ''0'')]))"
  "apply_write lib0 RessourceSchema id_generator0 create_1000 []
     = [(''0'', [(''last_modified'', PInt 1000), (''_id'', PStr ''0'')])]"
  by code_simp+

lemma put_2000_run:
  "answer_of lib0 RessourceSchema id_generator0 put_2000
     [(''0'', [(''last_modified'', PInt 1000), (''_id'', PStr ''0'')])]
     = Inr (Some (PDict [(''last_modified'', PInt 5)]))"
  "apply_write lib0 RessourceSchema id_generator0 put_2000
     [(''0'', [(''last_modified'', PInt 1000), (''_id'', PStr ''0'')])]
     = [(''0'', [(''last_modified'', PInt 5)])]"
  by code_simp+

lemma patch_900_run:
  "answer_of lib0 RessourceSchema id_generator0 patch_900
     [(''0'', [(''last_modified'', PInt 1000), (''_id'', PStr ''0'')])]
     = Inr (Some (PDict [(''_id'', PStr ''0''), (''last_modified'', PInt 900)]))"
  "apply_write lib0 RessourceSchema id_generator0 patch_900
     [(''0'', [(''last_modified'', PInt 1000), (''_id'', PStr ''0'')])]
     = [(''0'', [(''_id'', PStr ''0''), (''last_modified'', PInt 900)])]"
  by code_simp+

lemma patch_2000_run:
  "answer_of lib0 RessourceSchema id_generator0 patch_2000
     [(''0'', [(''last_modified'', PInt 1000), (''_id'', PStr ''0'')])]
     = Inr (Some (PDict [(''_id'', PStr ''0''), (''last_modified'', PInt 2000)]))"
  "apply_write lib0 RessourceSchema id_generator0 patch_2000
     [(''0'', [(''last_modified'', PInt 1000), (''_id'', PStr ''0'')])]
     = [(''0'', [(''_id'', PStr ''0''), (''last_modified'', PInt 2000)])]"
  by code_simp+

lemma trace_examples:
  "last_modified_trace lib0 RessourceSchema id_generator0 ''0'' [create_1000, put_2000] []
     = [Some 1000, Some 5]"
  "last_modified_trace lib0 RessourceSchema id_generator0 ''0'' [create_1000, patch_900] []
     = [Some 1000, Some 900]"
  "last_modified_trace lib0 RessourceSchema id_generator0 ''0'' [create_1000, patch_2000] []
     = [Some 1000, Some 2000]"
  by code_simp+

text \<open>
  Claim C3 as stated fails twice over. A record created at second 1000 is stored with
  \<open>last_modified = 1000\<close>; a successful put at second 2000 whose body supplies
  \<open>last_modified = 5\<close> stores 5. And after the same create, a successful patch handled
  while the clock reads 900 (the system clock was set back) stores 900.
\<close>

theorem last_modified_decreases_counterexample:
  "answer_of lib0 RessourceSchema id_generator0 create_1000 []
     = Inr (Some (PDict [(''last_modified'', PInt 1000), (''_id'', PStr ''0'')]))
   \<and> answer_of lib0 RessourceSchema id_generator0 put_2000
        (apply_write lib0 RessourceSchema id_generator0 create_1000 [])
     = Inr (Some (PDict [(''last_modified'', PInt 5)]))
   \<and> last_modified_trace lib0 RessourceSchema id_generator0 ''0'' [create_1000, put_2000] []
     = [Some 1000, Some 5]
   \<and> answer_of lib0 RessourceSchema id_generator0 patch_900
        (apply_write lib0 RessourceSchema id_generator0 create_1000 [])
     = Inr (Some (PDict [(''_id'', PStr ''0''), (''last_modified'', PInt 900)]))
   \<and> last_modified_trace lib0 RessourceSchema id_generator0 ''0'' [create_1000, patch_900] []
     = [Some 1000, Some 900]"
  by code_simp

lemma stamped_examples:
  "\<not> supplies_last_modified lib0 create_1000" "verb patch_2000 = Patch"
  "verb create_1000 = Create" "url_id patch_2000 = ''0''"
  "clock create_1000 = 1000" "clock patch_2000 = 2000"
  "stored_int [] ''0'' = None"
  by code_simp+

theorem last_modified_never_decreases_witness:
  "inherits_RessourceSchema RessourceSchema
   \<and> \<not> supplies_last_modified lib0 create_1000 \<and> verb patch_2000 = Patch
   \<and> sorted (map clock [create_1000, patch_2000])
   \<and> stored_int [] ''0'' = None
   \<and> last_modified_trace lib0 RessourceSchema id_generator0 ''0'' [create_1000, patch_2000] []
       = [Some 1000, Some 2000]
   \<and> sorted (stored_int [] ''0''
        # last_modified_trace lib0 RessourceSchema id_generator0 ''0'' [create_1000, patch_2000] [])
   \<and> answer_of lib0 RessourceSchema id_generator0 patch_2000
        [(''0'', [(''last_modified'', PInt 1000), (''_id'', PStr ''0'')])]
       = Inr (Some (PDict [(''_id'', PStr ''0''), (''last_modified'', PInt 2000)]))
   \<and> map_of [(''_id'', PStr ''0''), (''last_modified'', PInt 2000)] modified_field
       = Some (PInt (clock patch_2000))
   \<and> map_of (apply_write lib0 RessourceSchema id_generator0 patch_2000
               [(''0'', [(''last_modified'', PInt 1000), (''_id'', PStr ''0'')])]) (url_id patch_2000)
       = Some [(''_id'', PStr ''0''), (''last_modified'', PInt 2000)]"
proof -
  let ?d1 = "[(''0'', [(''last_modified'', PInt 1000), (''_id'', PStr ''0'')])]"
  let ?r2 = "[(''_id'', PStr ''0''), (''last_modified'', PInt 2000)]"
  have st: "\<forall>w \<in> set [create_1000, patch_2000]. verb w = Create \<or> url_id w = ''0''
               \<longrightarrow> verb w = Patch \<or> \<not> supplies_last_modified lib0 w"
    by (simp add: stamped_examples)
  have cl: "sorted (map clock [create_1000, patch_2000])"
    by (simp add: stamped_examples)
  have bd: "\<forall>w \<in> set [create_1000, patch_2000]. stored_int [] ''0'' \<le> Some (clock w)"
    by (simp add: stamped_examples)
  note inst = last_modified_never_decreases [OF base_schema_inherits st cl bd,
         of id_generator0 patch_2000 ?d1 "PDict ?r2"]
  from inst have A: "sorted (stored_int [] ''0''
        # last_modified_trace lib0 RessourceSchema id_generator0 ''0'' [create_1000, patch_2000] [])"
    by (rule conjunct1)
  from inst stamped_examples(2) patch_2000_run(1)
  have "\<exists>rec. PDict ?r2 = PDict rec \<and> map_of rec modified_field = Some (PInt (clock patch_2000))
             \<and> (verb patch_2000 \<noteq> Create \<longrightarrow>
                  map_of (apply_write lib0 RessourceSchema id_generator0 patch_2000 ?d1)
                    (url_id patch_2000) = Some rec)"
    by blast
  then have C: "map_of ?r2 modified_field = Some (PInt (clock patch_2000))"
    "map_of (apply_write lib0 RessourceSchema id_generator0 patch_2000 ?d1) (url_id patch_2000)
       = Some ?r2"
    using stamped_examples(2) by auto
  show ?thesis
    using base_schema_inherits stamped_examples(1,2,7) cl trace_examples(3) A
      patch_2000_run(1) C
    by blast
qed

end
